theory Spec2Isabelle
  imports Complex_Main
begin

section \<open>The challenge-response server of app/main.py\<close>

text \<open>
  The development follows \<^verbatim>\<open>src/app/main.py\<close>: the time seed, the significant-digit
  rounding, the token derivation \<^verbatim>\<open>tokenize\<close>, the per-user record \<^verbatim>\<open>ZKUser\<close>, the
  registry \<^verbatim>\<open>ZKServer\<close> and the three JSON routes.

  Three things the Python takes from its environment are inputs of the model:
  \<^item> the wall clock: every call of \<^verbatim>\<open>datetime.now(timezone.utc)\<close> is a value of type
    \<open>utc_now\<close> handed to the function that reads it (\<^verbatim>\<open>verify\<close> reads the clock twice,
    so it takes two readings);
  \<^item> the random generator: the integer \<^verbatim>\<open>random.randint\<close> returns is an argument;
  \<^item> floating point: the numbers of the program (\<^verbatim>\<open>float\<close>, and the \<^verbatim>\<open>int\<close> 0 the sums
    start from) are an arbitrary type \<open>'f\<close>, and the operations of \<^verbatim>\<open>math\<close> and of the
    \<^verbatim>\<open>float\<close> type are the fields of a record \<open>'f mathlib\<close>. Every theorem holds
    for every such record, so also for IEEE doubles with CPython's operations.
\<close>

subsection \<open>Exceptions\<close>

datatype pyerror =
    ValueError_invalid_literal string  \<comment> \<open>\<^verbatim>\<open>int(d)\<close> of a string that is not a number\<close>
  | ValueError_keys_length             \<comment> \<open>\<^verbatim>\<open>ValueError("Keys must be the same length.")\<close>\<close>
  | ValueError_math_domain             \<comment> \<open>\<^verbatim>\<open>math.log\<close> of an integer that is not positive\<close>
  | OverflowError

subsection \<open>Numbers and the math library\<close>

text \<open>
  \<open>math_log x b\<close> is \<^verbatim>\<open>math.log(x, b)\<close> for a positive integer \<open>x\<close> and \<open>float_pow b y\<close>
  is \<^verbatim>\<open>b ** y\<close> for an integer \<open>b\<close> and a float \<open>y\<close>; both return \<open>None\<close> where the
  Python raises \<^verbatim>\<open>OverflowError\<close>. \<open>num_eq\<close> is \<^verbatim>\<open>==\<close> on numbers (not structural:
  \<^verbatim>\<open>0 == 0.0\<close>, and a NaN equals nothing).
\<close>

record 'f mathlib =
  num_of_int :: "int \<Rightarrow> 'f"
  num_eq :: "'f \<Rightarrow> 'f \<Rightarrow> bool"
  num_add :: "'f \<Rightarrow> 'f \<Rightarrow> 'f"
  num_abs :: "'f \<Rightarrow> 'f"
  math_log :: "int \<Rightarrow> int \<Rightarrow> 'f option"
  float_mod :: "'f \<Rightarrow> int \<Rightarrow> 'f"
  float_pow :: "int \<Rightarrow> 'f \<Rightarrow> 'f option"
  math_sin :: "'f \<Rightarrow> 'f"
  math_tan :: "'f \<Rightarrow> 'f"
  math_log10 :: "'f \<Rightarrow> 'f"
  math_floor :: "'f \<Rightarrow> int"
  py_round :: "'f \<Rightarrow> int \<Rightarrow> 'f"

subsection \<open>The clock and the time seed\<close>

record utc_now =
  year :: int
  month :: int
  day :: int
  hour :: int
  minute :: int
  second :: int

definition KEY_LENGTH :: int where
  "KEY_LENGTH = 4"

definition time_seed :: "utc_now \<Rightarrow> int \<Rightarrow> int" where
  "time_seed now_utc offset = day now_utc * 100 + hour now_utc + offset"

text \<open>The ranges of the fields of a \<^verbatim>\<open>datetime\<close>.\<close>

definition valid_datetime :: "utc_now \<Rightarrow> bool" where
  "valid_datetime t \<longleftrightarrow>
     1 \<le> year t \<and> year t \<le> 9999 \<and> 1 \<le> month t \<and> month t \<le> 12 \<and>
     1 \<le> day t \<and> day t \<le> 31 \<and> 0 \<le> hour t \<and> hour t \<le> 23 \<and>
     0 \<le> minute t \<and> minute t \<le> 59 \<and> 0 \<le> second t \<and> second t \<le> 59"

text \<open>Two readings fall in the same hour of the same calendar day.\<close>

definition same_utc_hour :: "utc_now \<Rightarrow> utc_now \<Rightarrow> bool" where
  "same_utc_hour a b \<longleftrightarrow>
     year a = year b \<and> month a = month b \<and> day a = day b \<and> hour a = hour b"

subsection \<open>Rounding to significant digits\<close>

definition round_sig :: "'f mathlib \<Rightarrow> 'f \<Rightarrow> int \<Rightarrow> 'f" where
  "round_sig M x sig =
     (if num_eq M x (num_of_int M 0) then num_of_int M 0
      else
        let order = math_floor M (math_log10 M (num_abs M x));
            decimals = sig - order - 1
        in py_round M x decimals)"

subsection \<open>The digits of a key\<close>

text \<open>
  \<^verbatim>\<open>str\<close> of an integer is its decimal numeral, with a minus sign when negative;
  \<^verbatim>\<open>str(None)\<close> is \<^verbatim>\<open>'None'\<close>. A key is an \<open>int option\<close>: \<open>None\<close> is Python's
  \<^verbatim>\<open>None\<close>, which \<^verbatim>\<open>ZKUser.key2\<close> holds until the first challenge.
\<close>

definition digit_char :: "nat \<Rightarrow> char" where
  "digit_char d = char_of (48 + d)"

fun str_nat :: "nat \<Rightarrow> string" where
  "str_nat n = (if n < 10 then [digit_char n] else str_nat (n div 10) @ [digit_char (n mod 10)])"

declare str_nat.simps [simp del]

fun py_str :: "int option \<Rightarrow> string" where
  "py_str None = ''None''"
| "py_str (Some k) = (if k < 0 then CHR ''-'' # str_nat (nat (- k)) else str_nat (nat k))"

text \<open>\<^verbatim>\<open>int(d)\<close> for a string \<open>d\<close> of one character.\<close>

definition py_int :: "char \<Rightarrow> pyerror + int" where
  "py_int d =
     (if (48::nat) \<le> of_char d \<and> of_char d \<le> (57::nat) then Inr (int (of_char d) - 48)
      else Inl (ValueError_invalid_literal [d]))"

text \<open>The comprehension \<^verbatim>\<open>[int(d) for d in s]\<close>: the first failing character raises.\<close>

fun int_digits :: "string \<Rightarrow> pyerror + int list" where
  "int_digits [] = Inr []"
| "int_digits (d # ds) =
     (case py_int d of
        Inl e \<Rightarrow> Inl e
      | Inr v \<Rightarrow> (case int_digits ds of Inl e \<Rightarrow> Inl e | Inr vs \<Rightarrow> Inr (v # vs)))"

subsection \<open>The token derivation\<close>

text \<open>
  The body of the \<^verbatim>\<open>try\<close> up to the value of \<^verbatim>\<open>temp\<close>, at position \<open>i\<close> with the
  digits \<open>a = l1[i]\<close> and \<open>b = l2[i]\<close>. A digit is never negative, so \<^verbatim>\<open>seed ** b\<close> is
  an integer power.
\<close>

definition trig :: "'f mathlib \<Rightarrow> nat \<Rightarrow> 'f \<Rightarrow> 'f" where
  "trig M i val = (if i mod 2 = 0 then math_sin M val else math_tan M val)"

definition try_temp :: "'f mathlib \<Rightarrow> nat \<Rightarrow> int \<Rightarrow> int \<Rightarrow> int \<Rightarrow> pyerror + 'f" where
  "try_temp M i a b seed =
     (let tval = a * (seed ^ nat b) in
      if tval = 0 then Inr (trig M i (num_of_int M 0))
      else if tval < 0 then Inl ValueError_math_domain
      else
        (case math_log M tval 10 of
           None \<Rightarrow> Inl OverflowError
         | Some lg \<Rightarrow>
             (case float_pow M 10 (float_mod M lg 1) of
                None \<Rightarrow> Inl OverflowError
              | Some val \<Rightarrow> Inr (trig M i val))))"

text \<open>
  The loop \<^verbatim>\<open>for i in range(len(l1))\<close>, over the list of the indices still to visit:
  \<^verbatim>\<open>except OverflowError\<close> adds 0 and goes on, any other exception leaves the loop.
\<close>

fun tokenize_loop ::
  "'f mathlib \<Rightarrow> int list \<Rightarrow> int list \<Rightarrow> int \<Rightarrow> nat list \<Rightarrow> 'f \<Rightarrow> pyerror + 'f" where
  "tokenize_loop M l1 l2 seed [] result = Inr result"
| "tokenize_loop M l1 l2 seed (i # rest) result =
     (case try_temp M i (l1 ! i) (l2 ! i) seed of
        Inr temp \<Rightarrow> tokenize_loop M l1 l2 seed rest (num_add M result temp)
      | Inl OverflowError \<Rightarrow> tokenize_loop M l1 l2 seed rest (num_add M result (num_of_int M 0))
      | Inl e \<Rightarrow> Inl e)"

definition tokenize :: "'f mathlib \<Rightarrow> int option \<Rightarrow> int option \<Rightarrow> int \<Rightarrow> pyerror + 'f" where
  "tokenize M k1 k2 seed =
     (case int_digits (py_str k1) of
        Inl e \<Rightarrow> Inl e
      | Inr l1 \<Rightarrow>
          (case int_digits (py_str k2) of
             Inl e \<Rightarrow> Inl e
           | Inr l2 \<Rightarrow>
               if length l1 \<noteq> length l2 then Inl ValueError_keys_length
               else
                 (case tokenize_loop M l1 l2 seed [0..<length l1] (num_of_int M 0) of
                    Inl e \<Rightarrow> Inl e
                  | Inr result \<Rightarrow> Inr (round_sig M result KEY_LENGTH))))"

subsection \<open>The user record\<close>

record zkuser =
  name :: string
  key1 :: int
  key2 :: "int option"
  stime :: "int option"
  locked :: bool

definition ZKUser :: "string \<Rightarrow> int \<Rightarrow> zkuser" where
  "ZKUser nm k = \<lparr>name = nm, key1 = k, key2 = None, stime = None, locked = False\<rparr>"

text \<open>\<open>r\<close> is the integer drawn by \<^verbatim>\<open>random.randint\<close>, \<open>now\<close> the clock reading.\<close>

definition get_challenge_key :: "int \<Rightarrow> utc_now \<Rightarrow> zkuser \<Rightarrow> int \<times> zkuser" where
  "get_challenge_key r now u = (r, u\<lparr>key2 := Some r, stime := Some (time_seed now 0)\<rparr>)"

text \<open>
  \<open>now1\<close> is the clock read by the guard (read only when \<open>locked\<close> holds), \<open>now2\<close> the
  clock read for the seed of the proof. The result is the returned boolean or the
  exception that leaves \<^verbatim>\<open>verify\<close>, with the record as the call leaves it. The
  \<^verbatim>\<open>print\<close> of the proof is not modelled.
\<close>

definition verify ::
  "'f mathlib \<Rightarrow> utc_now \<Rightarrow> utc_now \<Rightarrow> zkuser \<Rightarrow> 'f \<Rightarrow> (pyerror + bool) \<times> zkuser" where
  "verify M now1 now2 u token =
     (if locked u \<and> stime u = Some (time_seed now1 0) then (Inr False, u)
      else
        let u' = u\<lparr>locked := True\<rparr> in
        (case tokenize M (Some (key1 u')) (key2 u') (time_seed now2 0) of
           Inl e \<Rightarrow> (Inl e, u')
         | Inr prf \<Rightarrow> (Inr (num_eq M prf token), u')))"

subsection \<open>The server\<close>

record zkserver =
  users :: "string \<rightharpoonup> zkuser"

definition ZKServer :: zkserver where
  "ZKServer = \<lparr>users = Map.empty\<rparr>"

definition register_user :: "int \<Rightarrow> zkserver \<Rightarrow> string \<Rightarrow> int \<times> zkserver" where
  "register_user r srv username =
     (case users srv username of
        Some u \<Rightarrow> (key1 u, srv)
      | None \<Rightarrow> (r, srv\<lparr>users := (users srv)(username \<mapsto> ZKUser username r)\<rparr>))"

definition issue_challenge ::
  "int \<Rightarrow> utc_now \<Rightarrow> zkserver \<Rightarrow> string \<Rightarrow> int option \<times> zkserver" where
  "issue_challenge r now srv username =
     (case users srv username of
        None \<Rightarrow> (None, srv)
      | Some u \<Rightarrow>
          (case get_challenge_key r now u of
             (k, u') \<Rightarrow> (Some k, srv\<lparr>users := (users srv)(username \<mapsto> u')\<rparr>)))"

definition verify_token ::
  "'f mathlib \<Rightarrow> utc_now \<Rightarrow> utc_now \<Rightarrow> zkserver \<Rightarrow> string \<Rightarrow> 'f \<Rightarrow> (pyerror + bool) \<times> zkserver" where
  "verify_token M now1 now2 srv username token =
     (case users srv username of
        None \<Rightarrow> (Inr False, srv)
      | Some u \<Rightarrow>
          (case verify M now1 now2 u token of
             (res, u') \<Rightarrow> (res, srv\<lparr>users := (users srv)(username \<mapsto> u')\<rparr>)))"

subsection \<open>The routes\<close>

text \<open>
  What a route hands back to the framework: its JSON body, the \<^verbatim>\<open>HTTPException\<close> it
  raises, or an exception it does not catch.
\<close>

datatype response =
    Registered string int            \<comment> \<open>\<^verbatim>\<open>{"username": .., "key1": ..}\<close>\<close>
  | Challenged string int int        \<comment> \<open>\<^verbatim>\<open>{"username": .., "key2": .., "seed": ..}\<close>\<close>
  | Authenticated                    \<comment> \<open>\<^verbatim>\<open>{"status": "Authentication successful"}\<close>\<close>
  | HTTPException nat string
  | Uncaught pyerror

definition route_register :: "int \<Rightarrow> zkserver \<Rightarrow> string \<Rightarrow> response \<times> zkserver" where
  "route_register r srv username =
     (case register_user r srv username of (k, srv') \<Rightarrow> (Registered username k, srv'))"

text \<open>The route reads the clock again (\<open>now'\<close>) for the seed it echoes.\<close>

definition route_challenge ::
  "int \<Rightarrow> utc_now \<Rightarrow> utc_now \<Rightarrow> zkserver \<Rightarrow> string \<Rightarrow> response \<times> zkserver" where
  "route_challenge r now now' srv username =
     (case issue_challenge r now srv username of
        (None, srv') \<Rightarrow> (HTTPException 404 ''User not found'', srv')
      | (Some k, srv') \<Rightarrow> (Challenged username k (time_seed now' 0), srv'))"

definition route_verify ::
  "'f mathlib \<Rightarrow> utc_now \<Rightarrow> utc_now \<Rightarrow> zkserver \<Rightarrow> string \<Rightarrow> 'f \<Rightarrow> response \<times> zkserver" where
  "route_verify M now1 now2 srv username token =
     (case verify_token M now1 now2 srv username token of
        (Inl e, srv') \<Rightarrow> (Uncaught e, srv')
      | (Inr success, srv') \<Rightarrow>
          (if \<not> success then (HTTPException 401 ''Authentication failed'', srv')
           else (Authenticated, srv')))"

text \<open>The requests the process serves, one after the other, on the global server.\<close>

datatype 'f request =
    Register string int
  | Challenge string int utc_now utc_now
  | Verify string 'f utc_now utc_now

fun handle :: "'f mathlib \<Rightarrow> zkserver \<Rightarrow> 'f request \<Rightarrow> zkserver" where
  "handle M srv (Register username r) = snd (route_register r srv username)"
| "handle M srv (Challenge username r now now') = snd (route_challenge r now now' srv username)"
| "handle M srv (Verify username token now1 now2) =
     snd (route_verify M now1 now2 srv username token)"

definition serve :: "'f mathlib \<Rightarrow> zkserver \<Rightarrow> 'f request list \<Rightarrow> zkserver" where
  "serve M srv reqs = foldl (handle M) srv reqs"

subsection \<open>Requests in a time window\<close>

text \<open>Every clock reading a request makes gives the seed \<open>w\<close>.\<close>

fun in_window :: "int \<Rightarrow> 'f request \<Rightarrow> bool" where
  "in_window w (Register username r) = True"
| "in_window w (Challenge username r now now') = (time_seed now 0 = w \<and> time_seed now' 0 = w)"
| "in_window w (Verify username token now1 now2) = (time_seed now1 0 = w \<and> time_seed now2 0 = w)"

subsection \<open>The derivation as a sum over the digit positions\<close>

text \<open>
  The decimal digit sequence of a non-negative key, most significant digit first, with
  no sign and no padding.
\<close>

fun digits :: "nat \<Rightarrow> int list" where
  "digits n = (if n < 10 then [int n] else digits (n div 10) @ [int (n mod 10)])"

declare digits.simps [simp del]

text \<open>
  Section 4.2 of the specification, step 3, for a logarithm \<open>lg\<close> of the product
  \<open>t = a * seed^b\<close>: \<open>v = 0\<close> when \<open>t = 0\<close>, otherwise \<open>v = 10 ^ (lg t mod 1)\<close>;
  \<open>sin(v)\<close> at an even position and \<open>tan(v)\<close> at an odd one; a position whose
  logarithm or power overflows (\<open>None\<close>) contributes 0. Steps 3c to 5: the
  contributions are added in the order of the positions, starting from 0
  (\<open>derive_sum\<close>), and the sum is rounded to \<open>KEY_LENGTH\<close> significant digits.
\<close>

definition position_v :: "'f mathlib \<Rightarrow> (int \<Rightarrow> 'f option) \<Rightarrow> int \<Rightarrow> 'f option" where
  "position_v M lg t =
     (if t = 0 then Some (num_of_int M 0)
      else (case lg t of
              None \<Rightarrow> None
            | Some l \<Rightarrow> float_pow M 10 (float_mod M l 1)))"

definition position_term ::
  "'f mathlib \<Rightarrow> (int \<Rightarrow> 'f option) \<Rightarrow> nat \<Rightarrow> int \<Rightarrow> int \<Rightarrow> int \<Rightarrow> 'f" where
  "position_term M lg i a b seed =
     (case position_v M lg (a * seed ^ nat b) of
        None \<Rightarrow> num_of_int M 0
      | Some v \<Rightarrow> if even i then math_sin M v else math_tan M v)"

definition derive_sum :: "'f mathlib \<Rightarrow> (int \<Rightarrow> 'f option) \<Rightarrow> nat \<Rightarrow> nat \<Rightarrow> int \<Rightarrow> 'f" where
  "derive_sum M lg k1 k2 seed =
     foldl (num_add M) (num_of_int M 0)
       (map (\<lambda>i. position_term M lg i (digits k1 ! i) (digits k2 ! i) seed)
          [0..<length (digits k1)])"

definition derive_with :: "'f mathlib \<Rightarrow> (int \<Rightarrow> 'f option) \<Rightarrow> nat \<Rightarrow> nat \<Rightarrow> int \<Rightarrow> 'f" where
  "derive_with M lg k1 k2 seed = round_sig M (derive_sum M lg k1 k2 seed) KEY_LENGTH"

text \<open>
  The logarithm in the words of the specification is \<open>log10(t)\<close>, the function
  \<^verbatim>\<open>math.log10\<close>. The logarithm the code calls is \<^verbatim>\<open>math.log(t, 10)\<close>, the quotient of
  two natural logarithms; in floating point the two differ at some powers of ten.
\<close>

definition log10_spec :: "'f mathlib \<Rightarrow> int \<Rightarrow> 'f option" where
  "log10_spec M t = Some (math_log10 M (num_of_int M t))"

definition log_quotient :: "'f mathlib \<Rightarrow> int \<Rightarrow> 'f option" where
  "log_quotient M t = math_log M t 10"

definition derive_spec :: "'f mathlib \<Rightarrow> nat \<Rightarrow> nat \<Rightarrow> int \<Rightarrow> 'f" where
  "derive_spec M k1 k2 seed = derive_with M (log10_spec M) k1 k2 seed"

definition derive_quotient :: "'f mathlib \<Rightarrow> nat \<Rightarrow> nat \<Rightarrow> int \<Rightarrow> 'f" where
  "derive_quotient M k1 k2 seed = derive_with M (log_quotient M) k1 k2 seed"

text \<open>Some position has a negative product \<open>a * seed^b\<close>.\<close>

definition negative_term :: "nat \<Rightarrow> nat \<Rightarrow> int \<Rightarrow> bool" where
  "negative_term k1 k2 seed =
     list_ex (\<lambda>(a, b). a * seed ^ nat b < 0) (zip (digits k1) (digits k2))"

subsection \<open>Two instances of the library, and example states\<close>

text \<open>
  \<open>exact_lib\<close> computes in the real numbers: nothing is rounded and nothing overflows.
  \<open>double_lib\<close> is \<open>exact_lib\<close> except at the arguments listed in its definition,
  where it returns the IEEE double that CPython returns there:
  \<^verbatim>\<open>math.log(1000, 10) = 2.9999999999999996\<close>,
  \<^verbatim>\<open>10 ** 0.9999999999999996 = 9.99999999999999\<close>,
  \<^verbatim>\<open>math.sin(9.99999999999999) = -0.5440211108893609\<close>,
  \<^verbatim>\<open>math.sin(1.0) = 0.8414709848078965\<close>,
  \<^verbatim>\<open>math.log(9 * 10**360, 10) = 360.95424250943927\<close>,
  \<^verbatim>\<open>10 ** 0.9542425094392684 = 8.99999999999883\<close> and
  \<^verbatim>\<open>math.sin(8.99999999999883) = 0.41211848524282313\<close>, each written as the fraction
  the double is. The theorems below hold for every library; these two instantiate
  them at concrete inputs.
\<close>

definition round_half_even :: "real \<Rightarrow> int" where
  "round_half_even x =
     (let f = \<lfloor>x\<rfloor>; d = x - of_int f in
      if d < 1 / 2 then f else if 1 / 2 < d then f + 1 else if even f then f else f + 1)"

definition exact_lib :: "real mathlib" where
  "exact_lib =
     \<lparr>num_of_int = of_int, num_eq = (=), num_add = (+), num_abs = abs,
      math_log = (\<lambda>x b. Some (log (of_int b) (of_int x))),
      float_mod = (\<lambda>x m. x - of_int m * of_int \<lfloor>x / of_int m\<rfloor>),
      float_pow = (\<lambda>b y. Some (of_int b powr y)),
      math_sin = sin, math_tan = tan, math_log10 = log 10, math_floor = floor,
      py_round = (\<lambda>x n. of_int (round_half_even (x * 10 powr of_int n)) / 10 powr of_int n)\<rparr>"

definition double_lib :: "real mathlib" where
  "double_lib =
     exact_lib
       \<lparr>math_log :=
          (\<lambda>x b. if x = 1000 \<and> b = 10 then Some (6755399441055743 / 2251799813685248)
                 else if x = 9 * 10 ^ 360 \<and> b = 10 then Some (3174987093873653 / 8796093022208)
                 else Some (log (of_int b) (of_int x))),
        float_pow :=
          (\<lambda>b y. if b = 10 \<and> y = 2251799813685247 / 2251799813685248
                   then Some (2814749767106557 / 281474976710656)
                 else if b = 10 \<and> y = 8393605878773 / 8796093022208
                   then Some (5066549580791149 / 562949953421312)
                 else Some (of_int b powr y)),
        math_sin :=
          (\<lambda>v. if v = 2814749767106557 / 281474976710656
                 then - (2450053272283009 / 4503599627370496)
               else if v = 5066549580791149 / 562949953421312
                 then 3712033313144143 / 9007199254740992
               else if v = 1 then 3789648413623927 / 4503599627370496
               else sin v)\<rparr>"

definition jan15_10h :: utc_now where
  "jan15_10h = \<lparr>year = 2024, month = 1, day = 15, hour = 10, minute = 0, second = 0\<rparr>"

definition jan15_11h :: utc_now where
  "jan15_11h = \<lparr>year = 2024, month = 1, day = 15, hour = 11, minute = 5, second = 0\<rparr>"

definition feb15_10h :: utc_now where
  "feb15_10h = \<lparr>year = 2024, month = 2, day = 15, hour = 10, minute = 30, second = 0\<rparr>"

text \<open>
  The server after a registration of alice, after her first challenge, and after her
  first verification attempt (with the token 0), all on January 15 between 10h and 11h.
\<close>

definition alice_registered :: zkserver where
  "alice_registered = serve exact_lib ZKServer [Register ''alice'' 1234]"

definition alice_challenged :: zkserver where
  "alice_challenged =
     serve exact_lib ZKServer [Register ''alice'' 1234, Challenge ''alice'' 5678 jan15_10h jan15_10h]"

definition alice_attempted :: zkserver where
  "alice_attempted =
     serve exact_lib ZKServer
       [Register ''alice'' 1234, Challenge ''alice'' 5678 jan15_10h jan15_10h,
        Verify ''alice'' 0 jan15_10h jan15_10h]"

section \<open>Facts about the model\<close>

subsection \<open>Digits\<close>

text \<open>
  Reading the characters of \<^verbatim>\<open>str(k)\<close> back with \<^verbatim>\<open>int\<close> gives the decimal digits of a
  non-negative \<open>k\<close>; the minus sign of a negative key and the letter N of
  \<^verbatim>\<open>'None'\<close> raise \<^verbatim>\<open>ValueError\<close>.
\<close>

lemma py_int_digit_char: "d < 10 \<Longrightarrow> py_int (digit_char d) = Inr (int d)"
  by (simp add: py_int_def digit_char_def)

lemma int_digits_append:
  "int_digits (xs @ ys) =
     (case int_digits xs of
        Inl e \<Rightarrow> Inl e
      | Inr a \<Rightarrow> (case int_digits ys of Inl e \<Rightarrow> Inl e | Inr b \<Rightarrow> Inr (a @ b)))"
  by (induction xs) (auto split: sum.splits)

lemma int_digits_str_nat: "int_digits (str_nat n) = Inr (digits n)"
proof (induction n rule: str_nat.induct)
  case (1 n)
  show ?case
  proof (cases "n < 10")
    case True
    then show ?thesis
      by (simp add: str_nat.simps [of n] digits.simps [of n] py_int_digit_char)
  next
    case False
    with 1 show ?thesis
      by (simp add: str_nat.simps [of n] digits.simps [of n] int_digits_append py_int_digit_char)
  qed
qed

lemma py_int_minus: "py_int CHR ''-'' = Inl (ValueError_invalid_literal ''-'')"
  by (simp add: py_int_def)

lemma py_int_N: "py_int CHR ''N'' = Inl (ValueError_invalid_literal ''N'')"
  by (simp add: py_int_def)

lemma int_digits_None: "int_digits (py_str None) = Inl (ValueError_invalid_literal ''N'')"
  by (simp add: py_int_N)

lemma int_digits_negative:
  "k < 0 \<Longrightarrow> int_digits (py_str (Some k)) = Inl (ValueError_invalid_literal ''-'')"
  by (simp add: py_int_minus)

lemma int_digits_nonneg:
  "0 \<le> k \<Longrightarrow> int_digits (py_str (Some k)) = Inr (digits (nat k))"
  by (simp add: int_digits_str_nat)

lemma digits_range: "d \<in> set (digits n) \<Longrightarrow> 0 \<le> d \<and> d \<le> 9"
proof (induction n rule: digits.induct)
  case (1 n)
  then show ?case
    by (cases "n < 10") (auto simp: digits.simps [of n])
qed

lemma digits_numeral:
  "digits (numeral k) =
     (if (numeral k :: nat) < 10 then [int (numeral k)]
      else digits (numeral k div 10) @ [int (numeral k mod 10)])"
  by (rule digits.simps)

lemma digits_one: "digits (Suc 0) = [1]"
  by (simp add: digits.simps [of "Suc 0"])

subsection \<open>The loop of tokenize\<close>

lemma try_temp_nonneg:
  "0 \<le> a * seed ^ nat b \<Longrightarrow>
   try_temp M i a b seed =
     (case position_v M (log_quotient M) (a * seed ^ nat b) of
        None \<Rightarrow> Inl OverflowError
      | Some v \<Rightarrow> Inr (trig M i v))"
  by (auto simp: try_temp_def position_v_def log_quotient_def Let_def split: option.splits)

lemma try_temp_negative:
  assumes "a * seed ^ nat b < 0"
  shows "try_temp M i a b seed = Inl ValueError_math_domain"
proof -
  define t where "t = a * seed ^ nat b"
  have "t < 0" using assms by (simp add: t_def)
  then have "t \<noteq> 0" by simp
  show ?thesis
    unfolding try_temp_def Let_def t_def [symmetric]
    using \<open>t < 0\<close> \<open>t \<noteq> 0\<close> by simp
qed

lemma loop_step_nonneg:
  assumes "0 \<le> l1 ! i * seed ^ nat (l2 ! i)"
  shows "tokenize_loop M l1 l2 seed (i # rest) result =
     tokenize_loop M l1 l2 seed rest (num_add M result (position_term M (log_quotient M) i (l1 ! i) (l2 ! i) seed))"
  using try_temp_nonneg [OF assms, of M i]
  by (simp add: position_term_def trig_def even_iff_mod_2_eq_zero split: option.splits)

lemma loop_step_negative:
  assumes "l1 ! i * seed ^ nat (l2 ! i) < 0"
  shows "tokenize_loop M l1 l2 seed (i # rest) result = Inl ValueError_math_domain"
  using try_temp_negative [OF assms, of M i] by simp

lemma tokenize_loop_cases:
  "tokenize_loop M l1 l2 seed js result =
     (if \<exists>i\<in>set js. l1 ! i * seed ^ nat (l2 ! i) < 0 then Inl ValueError_math_domain
      else Inr (foldl (num_add M) result
                  (map (\<lambda>i. position_term M (log_quotient M) i (l1 ! i) (l2 ! i) seed) js)))"
proof (induction js arbitrary: result)
  case Nil
  show ?case by simp
next
  case (Cons j js)
  show ?case
  proof (cases "l1 ! j * seed ^ nat (l2 ! j) < 0")
    case True
    have "\<exists>i\<in>set (j # js). l1 ! i * seed ^ nat (l2 ! i) < 0"
      using True by (intro bexI [of _ j]) simp_all
    then show ?thesis
      unfolding loop_step_negative [OF True] by (simp only: if_True)
  next
    case False
    then have nn: "0 \<le> l1 ! j * seed ^ nat (l2 ! j)" by simp
    show ?thesis
      unfolding loop_step_nonneg [OF nn] Cons.IH using False by simp
  qed
qed

lemma negative_term_index:
  assumes "length (digits k1) = length (digits k2)"
  shows "negative_term k1 k2 seed \<longleftrightarrow>
     (\<exists>i\<in>set [0..<length (digits k1)]. digits k1 ! i * seed ^ nat (digits k2 ! i) < 0)"
proof
  assume "negative_term k1 k2 seed"
  then obtain a b where ab: "(a, b) \<in> set (zip (digits k1) (digits k2))" "a * seed ^ nat b < 0"
    by (auto simp: negative_term_def list_ex_iff)
  then obtain n where "digits k1 ! n = a" "digits k2 ! n = b" "n < length (digits k1)"
    by (auto simp: in_set_zip)
  with ab show "\<exists>i\<in>set [0..<length (digits k1)]. digits k1 ! i * seed ^ nat (digits k2 ! i) < 0"
    by auto
next
  assume "\<exists>i\<in>set [0..<length (digits k1)]. digits k1 ! i * seed ^ nat (digits k2 ! i) < 0"
  then obtain i where i: "i < length (digits k1)" "digits k1 ! i * seed ^ nat (digits k2 ! i) < 0"
    by auto
  with assms have "(digits k1 ! i, digits k2 ! i) \<in> set (zip (digits k1) (digits k2))"
    by (auto simp: in_set_zip)
  with i show "negative_term k1 k2 seed"
    by (auto simp: negative_term_def list_ex_iff)
qed

lemma tokenize_cases:
  "tokenize M (Some k1) (Some k2) seed =
     (if k1 < 0 \<or> k2 < 0 then Inl (ValueError_invalid_literal ''-'')
      else if length (digits (nat k1)) \<noteq> length (digits (nat k2)) then Inl ValueError_keys_length
      else if negative_term (nat k1) (nat k2) seed then Inl ValueError_math_domain
      else Inr (derive_quotient M (nat k1) (nat k2) seed))"
proof (cases "k1 < 0")
  case True
  then show ?thesis
    by (simp add: tokenize_def int_digits_negative del: py_str.simps)
next
  case k1: False
  show ?thesis
  proof (cases "k2 < 0")
    case True
    with k1 show ?thesis
      by (simp add: tokenize_def int_digits_negative int_digits_nonneg del: py_str.simps)
  next
    case k2: False
    show ?thesis
    proof (cases "length (digits (nat k1)) = length (digits (nat k2))")
      case False
      with k1 k2 show ?thesis
        by (simp add: tokenize_def int_digits_nonneg del: py_str.simps)
    next
      case True
      from k1 k2 True show ?thesis
        unfolding tokenize_def derive_quotient_def derive_with_def derive_sum_def
        by (simp add: int_digits_nonneg tokenize_loop_cases
            negative_term_index [OF True] del: py_str.simps)
    qed
  qed
qed

lemma tokenize_None:
  "tokenize M (Some k) None seed = Inl (ValueError_invalid_literal (if k < 0 then ''-'' else ''N''))"
  by (simp add: tokenize_def int_digits_None int_digits_negative int_digits_nonneg del: py_str.simps)

lemma nonneg_seed_no_negative_term:
  assumes "0 \<le> seed"
  shows "\<not> negative_term k1 k2 seed"
proof
  assume "negative_term k1 k2 seed"
  then obtain a b where ab: "(a, b) \<in> set (zip (digits k1) (digits k2))" "a * seed ^ nat b < 0"
    by (auto simp: negative_term_def list_ex_iff)
  from ab(1) have "a \<in> set (digits k1)" by (rule set_zip_leftD)
  then have "0 \<le> a" using digits_range by blast
  moreover have "0 \<le> seed ^ nat b" using assms by simp
  ultimately have "0 \<le> a * seed ^ nat b" by (rule mult_nonneg_nonneg)
  with ab(2) show False by simp
qed

subsection \<open>The record and the server\<close>

lemma verify_record:
  "snd (verify M now1 now2 u token) =
     (if locked u \<and> stime u = Some (time_seed now1 0) then u else u\<lparr>locked := True\<rparr>)"
  by (simp add: verify_def Let_def split: sum.split)

lemma verify_result:
  "fst (verify M now1 now2 u token) =
     (if locked u \<and> stime u = Some (time_seed now1 0) then Inr False
      else (case tokenize M (Some (key1 u)) (key2 u) (time_seed now2 0) of
              Inl e \<Rightarrow> Inl e
            | Inr v \<Rightarrow> Inr (num_eq M v token)))"
  by (simp add: verify_def Let_def split: sum.split)

lemma verify_token_Some:
  "users srv username = Some u \<Longrightarrow>
   verify_token M now1 now2 srv username token =
     (fst (verify M now1 now2 u token),
      srv\<lparr>users := (users srv)(username \<mapsto> snd (verify M now1 now2 u token))\<rparr>)"
  by (simp add: verify_token_def split: prod.split)

lemma verify_token_None:
  "users srv username = None \<Longrightarrow> verify_token M now1 now2 srv username token = (Inr False, srv)"
  by (simp add: verify_token_def)

lemma issue_challenge_Some:
  "users srv username = Some u \<Longrightarrow>
   issue_challenge r now srv username =
     (Some r, srv\<lparr>users := (users srv)(username \<mapsto> u\<lparr>key2 := Some r, stime := Some (time_seed now 0)\<rparr>)\<rparr>)"
  by (simp add: issue_challenge_def get_challenge_key_def)

lemma issue_challenge_None:
  "users srv username = None \<Longrightarrow> issue_challenge r now srv username = (None, srv)"
  by (simp add: issue_challenge_def)

lemma register_user_Some:
  "users srv username = Some u \<Longrightarrow> register_user r srv username = (key1 u, srv)"
  by (simp add: register_user_def)

lemma route_register_state: "snd (route_register r srv n) = snd (register_user r srv n)"
  by (simp add: route_register_def split: prod.split)

lemma route_challenge_state:
  "snd (route_challenge r now now' srv n) = snd (issue_challenge r now srv n)"
  by (simp add: route_challenge_def split: prod.split option.split)

lemma route_verify_state:
  "snd (route_verify M now1 now2 srv n token) = snd (verify_token M now1 now2 srv n token)"
  by (simp add: route_verify_def split: prod.split sum.split)

lemma handle_users:
  "users (handle M srv req) n =
     (case req of
        Register username r \<Rightarrow>
          (if username = n \<and> users srv n = None then Some (ZKUser n r) else users srv n)
      | Challenge username r now now' \<Rightarrow>
          (if username = n then
             map_option (\<lambda>u. u\<lparr>key2 := Some r, stime := Some (time_seed now 0)\<rparr>) (users srv n)
           else users srv n)
      | Verify username token now1 now2 \<Rightarrow>
          (if username = n then
             map_option (\<lambda>u. snd (verify M now1 now2 u token)) (users srv n)
           else users srv n))"
proof (cases req)
  case (Register username r)
  then show ?thesis
    by (cases "users srv username") (auto simp: route_register_def register_user_def)
next
  case (Challenge username r now now')
  then show ?thesis
    by (cases "users srv username")
      (auto simp: route_challenge_def issue_challenge_Some issue_challenge_None)
next
  case (Verify username token now1 now2)
  then show ?thesis
    by (cases "users srv username")
      (auto simp: route_verify_def verify_token_Some verify_token_None split: sum.split)
qed

lemma handle_locked:
  assumes "users srv n = Some u" "locked u"
  shows "\<exists>u'. users (handle M srv req) n = Some u' \<and> locked u' \<and> key1 u' = key1 u"
  using assms unfolding handle_users by (cases req) (auto simp: verify_record)

lemma serve_locked:
  assumes "users srv n = Some u" "locked u"
  shows "\<exists>u'. users (serve M srv reqs) n = Some u' \<and> locked u' \<and> key1 u' = key1 u"
  using assms
proof (induction reqs arbitrary: srv u)
  case Nil
  then show ?case by (simp add: serve_def)
next
  case (Cons req reqs)
  from handle_locked [OF Cons.prems, of M req]
  obtain u1 where u1: "users (handle M srv req) n = Some u1" "locked u1" "key1 u1 = key1 u"
    by blast
  from Cons.IH [OF u1(1,2)] u1(3) show ?case
    by (simp add: serve_def)
qed

lemma handle_locked_window:
  assumes "users srv n = Some u" "locked u" "stime u = Some w" "in_window w req"
  shows "\<exists>u'. users (handle M srv req) n = Some u' \<and> locked u' \<and> stime u' = Some w"
  using assms unfolding handle_users by (cases req) (auto simp: verify_record)

lemma serve_locked_window:
  assumes "users srv n = Some u" "locked u" "stime u = Some w" "list_all (in_window w) reqs"
  shows "\<exists>u'. users (serve M srv reqs) n = Some u' \<and> locked u' \<and> stime u' = Some w"
  using assms
proof (induction reqs arbitrary: srv u)
  case Nil
  then show ?case by (simp add: serve_def)
next
  case (Cons req reqs)
  from Cons.prems have "in_window w req" "list_all (in_window w) reqs" by simp_all
  from handle_locked_window [OF Cons.prems(1-3) this(1), of M]
  obtain u1 where u1: "users (handle M srv req) n = Some u1" "locked u1" "stime u1 = Some w"
    by blast
  from Cons.IH [OF u1 \<open>list_all (in_window w) reqs\<close>] show ?case
    by (simp add: serve_def)
qed

text \<open>
  In every state the server reaches from its initial one, a record without a challenge
  has no challenge window either: \<^verbatim>\<open>get_challenge_key\<close> sets both.
\<close>

lemma handle_unchallenged:
  assumes "\<And>n u. users srv n = Some u \<Longrightarrow> key2 u = None \<Longrightarrow> stime u = None"
    and "users (handle M srv req) n = Some u" and "key2 u = None"
  shows "stime u = None"
  using assms(2,3) assms(1) [of n] unfolding handle_users
  by (cases req) (auto simp: ZKUser_def verify_record split: if_splits)

lemma serve_unchallenged:
  assumes "\<And>n u. users srv n = Some u \<Longrightarrow> key2 u = None \<Longrightarrow> stime u = None"
    and "users (serve M srv reqs) n = Some u" and "key2 u = None"
  shows "stime u = None"
  using assms
proof (induction reqs arbitrary: srv)
  case Nil
  then show ?case by (simp add: serve_def)
next
  case (Cons req reqs)
  have step: "\<And>n u. users (handle M srv req) n = Some u \<Longrightarrow> key2 u = None \<Longrightarrow> stime u = None"
    using handle_unchallenged [of srv M req] Cons.prems(1) by blast
  from Cons.prems(2) have "users (serve M (handle M srv req) reqs) n = Some u"
    by (simp add: serve_def)
  from Cons.IH [OF step this Cons.prems(3)] show ?case .
qed

lemma reachable_unchallenged:
  assumes "users (serve M ZKServer reqs) n = Some u" and "key2 u = None"
  shows "stime u = None"
  using serve_unchallenged [of ZKServer M reqs n u] assms by (simp add: ZKServer_def)

lemma seed_injective:
  fixes d d' h h' :: int
  assumes "0 \<le> h" "h \<le> 23" "0 \<le> h'" "h' \<le> 23" "d * 100 + h = d' * 100 + h'"
  shows "d = d' \<and> h = h'"
proof -
  have "d = d'"
  proof (rule ccontr)
    assume "d \<noteq> d'"
    then consider "d + 1 \<le> d'" | "d' + 1 \<le> d" by linarith
    then show False
      using assms by cases linarith+
  qed
  with assms(5) show ?thesis by simp
qed

subsection \<open>The example states\<close>

lemma jan15_10h_seed: "time_seed jan15_10h 0 = 1510"
  by (simp add: time_seed_def jan15_10h_def)

lemma alice_registered_users:
  "users alice_registered ''alice'' = Some (ZKUser ''alice'' 1234)"
  by (simp add: alice_registered_def serve_def route_register_state register_user_def ZKServer_def)

lemma alice_challenged_users:
  "users alice_challenged ''alice'' =
     Some \<lparr>name = ''alice'', key1 = 1234, key2 = Some 5678, stime = Some 1510, locked = False\<rparr>"
  by (simp add: alice_challenged_def serve_def route_register_state route_challenge_state
      register_user_def issue_challenge_def get_challenge_key_def ZKServer_def ZKUser_def
      jan15_10h_seed)

lemma alice_attempted_users:
  "users alice_attempted ''alice'' =
     Some \<lparr>name = ''alice'', key1 = 1234, key2 = Some 5678, stime = Some 1510, locked = True\<rparr>"
proof -
  have e: "alice_attempted = handle exact_lib alice_challenged (Verify ''alice'' 0 jan15_10h jan15_10h)"
    by (simp add: alice_attempted_def alice_challenged_def serve_def)
  show ?thesis
    unfolding e
    by (simp add: route_verify_state verify_token_Some [OF alice_challenged_users] verify_record)
qed

text \<open>In exact arithmetic the two logarithms are the same function.\<close>

lemma exact_lib_logarithms: "log_quotient exact_lib = log10_spec exact_lib"
  by (simp add: fun_eq_iff log_quotient_def log10_spec_def exact_lib_def)

lemma exact_lib_derive: "derive_quotient exact_lib = derive_spec exact_lib"
  by (simp add: fun_eq_iff derive_quotient_def derive_spec_def exact_lib_logarithms)

lemma tokenize_alice:
  "tokenize exact_lib (Some 1234) (Some 5678) 1510 = Inr (derive_spec exact_lib 1234 5678 1510)"
  using nonneg_seed_no_negative_term [of 1510 1234 5678]
  by (simp add: tokenize_cases digits_numeral digits_one exact_lib_derive)

lemma alice_wrong_proof:
  "fst (verify_token exact_lib jan15_10h jan15_10h alice_challenged ''alice''
          (derive_spec exact_lib 1234 5678 1510 + 1)) = Inr False"
  by (simp add: verify_token_Some [OF alice_challenged_users] verify_result jan15_10h_seed
      tokenize_alice) (simp add: exact_lib_def)

subsection \<open>Rounding\<close>

text \<open>
  What \<^verbatim>\<open>round_sig\<close> does with the operations of the library: a sum equal to 0 gives the
  integer 0, any other sum \<open>x\<close> is rounded by \<^verbatim>\<open>round\<close> to
  \<open>sig - 1 - floor(log10(abs(x)))\<close> decimal places.
\<close>

lemma round_sig_zero: "num_eq M x (num_of_int M 0) \<Longrightarrow> round_sig M x sig = num_of_int M 0"
  by (simp add: round_sig_def)

lemma round_sig_nonzero:
  "\<not> num_eq M x (num_of_int M 0) \<Longrightarrow>
   round_sig M x sig = py_round M x (sig - 1 - math_floor M (math_log10 M (num_abs M x)))"
  by (simp add: round_sig_def Let_def algebra_simps)

text \<open>
  In exact arithmetic: rounding half to even stays between the integers that bound its
  argument, the floor of \<open>log 10\<close> gives the decade of a positive real, and a nonzero
  real rounds to an integer of four digits times a power of ten.
\<close>

lemma round_half_even_ge: "of_int k \<le> y \<Longrightarrow> k \<le> round_half_even y"
proof -
  assume "of_int k \<le> y"
  then have "k \<le> \<lfloor>y\<rfloor>" by (simp add: le_floor_iff)
  moreover have "\<lfloor>y\<rfloor> \<le> round_half_even y"
    by (simp add: round_half_even_def Let_def)
  ultimately show ?thesis by simp
qed

lemma round_half_even_le: "y \<le> of_int k \<Longrightarrow> round_half_even y \<le> k"
proof -
  assume y: "y \<le> of_int k"
  show ?thesis
  proof (cases "y = of_int \<lfloor>y\<rfloor>")
    case True
    then have "round_half_even y = \<lfloor>y\<rfloor>"
      by (simp add: round_half_even_def Let_def)
    moreover have "\<lfloor>y\<rfloor> \<le> k" using y by (simp add: floor_le_iff)
    ultimately show ?thesis by simp
  next
    case False
    have "of_int \<lfloor>y\<rfloor> \<le> y" by (rule of_int_floor_le)
    with False have "of_int \<lfloor>y\<rfloor> < y" by linarith
    with y have "of_int \<lfloor>y\<rfloor> < (of_int k :: real)" by simp
    then have "\<lfloor>y\<rfloor> < k" by simp
    moreover have "round_half_even y \<le> \<lfloor>y\<rfloor> + 1"
      by (simp add: round_half_even_def Let_def)
    ultimately show ?thesis by simp
  qed
qed

lemma log10_floor_bounds:
  assumes "0 < (x::real)"
  shows "10 powr of_int \<lfloor>log 10 x\<rfloor> \<le> x" and "x < 10 powr (of_int \<lfloor>log 10 x\<rfloor> + 1)"
proof -
  have "of_int \<lfloor>log 10 x\<rfloor> \<le> log 10 x" by simp
  then show "10 powr of_int \<lfloor>log 10 x\<rfloor> \<le> x"
    using assms by (simp add: powr_le_iff)
  have "log 10 x < of_int \<lfloor>log 10 x\<rfloor> + 1" by linarith
  then show "x < 10 powr (of_int \<lfloor>log 10 x\<rfloor> + 1)"
    using assms by (simp add: less_powr_iff)
qed

lemma floor_log10_eq:
  assumes "10 powr of_int k \<le> (x::real)" and "x < 10 powr (of_int k + 1)"
  shows "\<lfloor>log 10 x\<rfloor> = k"
proof -
  have pos: "0 < x"
    using assms(1) powr_gt_zero [of 10 "of_int k"] by linarith
  have "of_int k \<le> log 10 x"
    using assms(1) pos by (simp add: le_log_iff)
  moreover have "log 10 x < of_int k + 1"
    using assms(2) pos by (simp add: log_less_iff)
  ultimately show ?thesis by linarith
qed

lemma scaled_bounds:
  assumes "0 < (x::real)"
  shows "1000 \<le> x * 10 powr of_int (3 - \<lfloor>log 10 x\<rfloor>)"
    and "x * 10 powr of_int (3 - \<lfloor>log 10 x\<rfloor>) < 10000"
proof -
  let ?o = "\<lfloor>log 10 x\<rfloor>"
  let ?s = "(10::real) powr of_int (3 - ?o)"
  have s: "0 < ?s" by simp
  have lo: "10 powr of_int ?o * ?s = 1000"
    by (simp add: powr_add [symmetric])
  have hi: "10 powr (of_int ?o + 1) * ?s = 10000"
    by (simp add: powr_add [symmetric])
  from log10_floor_bounds(1) [OF assms] s have "10 powr of_int ?o * ?s \<le> x * ?s"
    by (simp only: mult_le_cancel_right_pos)
  with lo show "1000 \<le> x * ?s" by simp
  from log10_floor_bounds(2) [OF assms] s have "x * ?s < 10 powr (of_int ?o + 1) * ?s"
    by (simp only: mult_less_cancel_right_pos)
  with hi show "x * ?s < 10000" by simp
qed

lemma round_sig_exact:
  assumes "x \<noteq> 0"
  shows "round_sig exact_lib x KEY_LENGTH =
           of_int (round_half_even (x * 10 powr of_int (3 - \<lfloor>log 10 \<bar>x\<bar>\<rfloor>)))
             / 10 powr of_int (3 - \<lfloor>log 10 \<bar>x\<bar>\<rfloor>)"
proof -
  have "4 - \<lfloor>log 10 \<bar>x\<bar>\<rfloor> - 1 = 3 - \<lfloor>log 10 \<bar>x\<bar>\<rfloor>" by simp
  then show ?thesis
    using assms by (simp add: round_sig_def exact_lib_def KEY_LENGTH_def Let_def)
qed

lemma rounded_mantissa_bounds:
  assumes "x \<noteq> 0"
  shows "1000 \<le> \<bar>round_half_even (x * 10 powr of_int (3 - \<lfloor>log 10 \<bar>x\<bar>\<rfloor>))\<bar>"
    and "\<bar>round_half_even (x * 10 powr of_int (3 - \<lfloor>log 10 \<bar>x\<bar>\<rfloor>))\<bar> \<le> 10000"
proof -
  let ?s = "(10::real) powr of_int (3 - \<lfloor>log 10 \<bar>x\<bar>\<rfloor>)"
  let ?n = "round_half_even (x * ?s)"
  have ax: "0 < \<bar>x\<bar>" using assms by simp
  note b = scaled_bounds [OF ax]
  have "1000 \<le> \<bar>?n\<bar> \<and> \<bar>?n\<bar> \<le> 10000"
  proof (cases "0 < x")
    case True
    then have abs: "\<bar>x\<bar> = x" by simp
    from b have lo: "of_int 1000 \<le> x * ?s" and hi: "x * ?s \<le> of_int 10000"
      unfolding abs by simp_all
    from round_half_even_ge [OF lo] round_half_even_le [OF hi] show ?thesis by simp
  next
    case False
    with assms have abs: "\<bar>x\<bar> = - x" by simp
    from b have lo: "of_int (- 10000) \<le> x * ?s" and hi: "x * ?s \<le> of_int (- 1000)"
      unfolding abs by simp_all
    from round_half_even_ge [OF lo] round_half_even_le [OF hi] show ?thesis by simp
  qed
  then show "1000 \<le> \<bar>?n\<bar>" and "\<bar>?n\<bar> \<le> 10000" by simp_all
qed

lemma ten_thousand_mantissa:
  fixes n :: int
  assumes "\<bar>n\<bar> = 10000"
  shows "\<bar>n div 10\<bar> = 1000" and "n = n div 10 * 10"
proof -
  from assms have "n = 10000 \<or> n = - 10000" by linarith
  then show "\<bar>n div 10\<bar> = 1000" and "n = n div 10 * 10" by auto
qed

lemma round_sig_exact_digits:
  assumes "x \<noteq> 0"
  shows "\<exists>m e. 1000 \<le> \<bar>m\<bar> \<and> \<bar>m\<bar> < 10000
           \<and> round_sig exact_lib x KEY_LENGTH = of_int m * 10 powr of_int e"
proof -
  let ?d = "3 - \<lfloor>log 10 \<bar>x\<bar>\<rfloor>"
  let ?n = "round_half_even (x * 10 powr of_int ?d)"
  note r = round_sig_exact [OF assms]
  note nb = rounded_mantissa_bounds [OF assms]
  have inv: "(10::real) powr of_int (- ?d) = inverse (10 powr of_int ?d)"
    by (simp only: of_int_minus powr_minus)
  have div: "(of_int ?n :: real) / 10 powr of_int ?d = of_int ?n * 10 powr of_int (- ?d)"
    by (simp only: inv divide_inverse)
  show ?thesis
  proof (cases "\<bar>?n\<bar> < 10000")
    case True
    with nb(1) r div show ?thesis by metis
  next
    case False
    with nb(2) have n: "\<bar>?n\<bar> = 10000" by simp
    define m where "m = ?n div 10"
    from ten_thousand_mantissa [OF n] have m: "\<bar>m\<bar> = 1000" "?n = m * 10"
      unfolding m_def by simp_all
    have "(10::real) powr (1 + of_int (- ?d)) = 10 powr 1 * 10 powr of_int (- ?d)"
      by (rule powr_add)
    moreover have "(1::real) + of_int (- ?d) = of_int (1 - ?d)" by simp
    ultimately have "(10::real) powr of_int (1 - ?d) = 10 * 10 powr of_int (- ?d)"
      by simp
    then have "of_int m * (10::real) powr of_int (1 - ?d) = of_int ?n * 10 powr of_int (- ?d)"
      using m(2) by simp
    with r div have "round_sig exact_lib x KEY_LENGTH = of_int m * 10 powr of_int (1 - ?d)"
      by simp
    with m(1) show ?thesis
      by (intro exI [of _ m] exI [of _ "1 - ?d"]) simp
  qed
qed

lemma round_sig_double_lib: "round_sig double_lib x sig = round_sig exact_lib x sig"
  by (simp add: round_sig_def double_lib_def)

lemma round_sig_tenths:
  assumes "1 / 10 \<le> \<bar>x\<bar>" and "\<bar>x\<bar> < 1"
  shows "round_sig exact_lib x KEY_LENGTH = of_int (round_half_even (x * 10000)) / 10000"
proof -
  have "10 powr of_int (- 1) \<le> \<bar>x\<bar>"
    using assms(1) by (simp add: powr_minus)
  moreover have "\<bar>x\<bar> < 10 powr (of_int (- 1) + 1)"
    using assms(2) by simp
  ultimately have o: "\<lfloor>log 10 \<bar>x\<bar>\<rfloor> = - 1" by (rule floor_log10_eq)
  have "x \<noteq> 0" using assms(1) by auto
  from round_sig_exact [OF this] show ?thesis
    unfolding o by simp
qed

lemma round_half_even_eq:
  assumes "of_int n - 1 / 2 < y" and "y < of_int n + 1 / 2"
  shows "round_half_even y = n"
proof (cases "of_int n \<le> y")
  case True
  with assms(2) have f: "\<lfloor>y\<rfloor> = n" by linarith
  have "y - of_int n < 1 / 2" using assms(2) by simp
  then show ?thesis
    by (simp add: round_half_even_def Let_def f)
next
  case False
  with assms(1) have f: "\<lfloor>y\<rfloor> = n - 1" by linarith
  have d: "1 / 2 < y - of_int (n - 1)" using assms(1) by simp
  then have "\<not> y - of_int (n - 1) < 1 / 2" by simp
  with d show ?thesis
    by (simp add: round_half_even_def Let_def f)
qed

subsection \<open>The two logarithms\<close>

text \<open>
  Where \<^verbatim>\<open>math.log(t, 10)\<close> and \<^verbatim>\<open>math.log10(t)\<close> agree on the positive integers, the
  derivation with the one is the derivation with the other.
\<close>

lemma position_v_agree:
  assumes "0 \<le> t" and "\<And>u. 0 < u \<Longrightarrow> math_log M u 10 = Some (math_log10 M (num_of_int M u))"
  shows "position_v M (log_quotient M) t = position_v M (log10_spec M) t"
proof (cases "t = 0")
  case True
  then show ?thesis by (simp add: position_v_def)
next
  case False
  with assms(1) have "0 < t" by simp
  from assms(2) [OF this] show ?thesis
    by (simp add: position_v_def log_quotient_def log10_spec_def)
qed

lemma derive_agree:
  assumes "length (digits k1) = length (digits k2)" and "\<not> negative_term k1 k2 seed"
    and "\<And>u. 0 < u \<Longrightarrow> math_log M u 10 = Some (math_log10 M (num_of_int M u))"
  shows "derive_quotient M k1 k2 seed = derive_spec M k1 k2 seed"
proof -
  have nn: "0 \<le> digits k1 ! i * seed ^ nat (digits k2 ! i)" if "i < length (digits k1)" for i
  proof (rule ccontr)
    assume "\<not> 0 \<le> digits k1 ! i * seed ^ nat (digits k2 ! i)"
    then have "digits k1 ! i * seed ^ nat (digits k2 ! i) < 0" by simp
    with that have "\<exists>i\<in>set [0..<length (digits k1)]. digits k1 ! i * seed ^ nat (digits k2 ! i) < 0"
      by (intro bexI [of _ i]) simp_all
    with assms(2) negative_term_index [OF assms(1), of seed] show False by simp
  qed
  have "map (\<lambda>i. position_term M (log_quotient M) i (digits k1 ! i) (digits k2 ! i) seed)
          [0..<length (digits k1)]
      = map (\<lambda>i. position_term M (log10_spec M) i (digits k1 ! i) (digits k2 ! i) seed)
          [0..<length (digits k1)]"
  proof (rule map_cong [OF refl])
    fix i assume "i \<in> set [0..<length (digits k1)]"
    then have "i < length (digits k1)" by simp
    from position_v_agree [OF nn [OF this] assms(3)]
    show "position_term M (log_quotient M) i (digits k1 ! i) (digits k2 ! i) seed
        = position_term M (log10_spec M) i (digits k1 ! i) (digits k2 ! i) seed"
      by (simp only: position_term_def)
  qed
  then show ?thesis
    by (simp only: derive_quotient_def derive_spec_def derive_with_def derive_sum_def)
qed

text \<open>
  The two traces of \<open>double_lib\<close>. For the keys 1 and 3 and the seed 10 the product is
  1000: with \<^verbatim>\<open>math.log(1000, 10)\<close> the position gives \<open>v = 9.99999999999999\<close> and the
  token -0.544, with \<open>log10(1000) = 3\<close> it gives \<open>v = 1\<close> and 0.8415. For the keys 9 and
  9 and the seed \<open>10^40\<close> the product is \<open>9 * 10^360\<close>, beyond the range of a double,
  and the token is 0.4121.
\<close>

lemma double_lib_trace_1000:
  "derive_quotient double_lib (Suc 0) 3 10 = - (544 / 1000)"
proof -
  have s: "derive_sum double_lib (log_quotient double_lib) (Suc 0) 3 10
             = - (2450053272283009 / 4503599627370496)"
    by (simp add: derive_sum_def position_term_def position_v_def log_quotient_def
        digits_one digits_numeral double_lib_def exact_lib_def)
  have r: "round_half_even (- (2450053272283009 / 4503599627370496) * 10000) = - 5440"
    by (rule round_half_even_eq) simp_all
  have t: "round_sig exact_lib (- (2450053272283009 / 4503599627370496)) KEY_LENGTH
             = of_int (round_half_even (- (2450053272283009 / 4503599627370496) * 10000)) / 10000"
    by (rule round_sig_tenths) simp_all
  show ?thesis
    unfolding derive_quotient_def derive_with_def s round_sig_double_lib t r by simp
qed

lemma double_lib_spec_1000:
  "derive_spec double_lib (Suc 0) 3 10 = 8415 / 10000"
proof -
  have l: "log 10 (1000::real) = 3"
    using log_pow_cancel [of 10 3] by simp
  have s: "derive_sum double_lib (log10_spec double_lib) (Suc 0) 3 10
             = 3789648413623927 / 4503599627370496"
    by (simp add: derive_sum_def position_term_def position_v_def log10_spec_def
        digits_one digits_numeral double_lib_def exact_lib_def l)
  have r: "round_half_even (3789648413623927 / 4503599627370496 * 10000) = 8415"
    by (rule round_half_even_eq) simp_all
  have t: "round_sig exact_lib (3789648413623927 / 4503599627370496) KEY_LENGTH
             = of_int (round_half_even (3789648413623927 / 4503599627370496 * 10000)) / 10000"
    by (rule round_sig_tenths) simp_all
  show ?thesis
    unfolding derive_spec_def derive_with_def s round_sig_double_lib t r by simp
qed

lemma double_lib_trace_huge:
  "derive_quotient double_lib 9 9 (10 ^ 40) = 4121 / 10000"
proof -
  have t: "(9::int) * (10 ^ 40) ^ 9 = 9 * 10 ^ 360" by simp
  have s: "derive_sum double_lib (log_quotient double_lib) 9 9 (10 ^ 40)
             = 3712033313144143 / 9007199254740992"
    by (simp add: derive_sum_def position_term_def position_v_def log_quotient_def
        digits_numeral double_lib_def exact_lib_def t)
  have r: "round_half_even (3712033313144143 / 9007199254740992 * 10000) = 4121"
    by (rule round_half_even_eq) simp_all
  have q: "round_sig exact_lib (3712033313144143 / 9007199254740992) KEY_LENGTH
             = of_int (round_half_even (3712033313144143 / 9007199254740992 * 10000)) / 10000"
    by (rule round_sig_tenths) simp_all
  show ?thesis
    unfolding derive_quotient_def derive_with_def s round_sig_double_lib q r by simp
qed

lemma tokenize_double_lib_1000:
  "tokenize double_lib (Some 1) (Some 3) 10 = Inr (- (544 / 1000))"
  using nonneg_seed_no_negative_term [of 10 "Suc 0" 3]
  by (simp add: tokenize_cases digits_one digits_numeral double_lib_trace_1000)

lemma tokenize_double_lib_huge:
  "tokenize double_lib (Some 9) (Some 9) (10 ^ 40) = Inr (4121 / 10000)"
proof -
  have "\<not> negative_term 9 9 (10 ^ 40)"
    by (rule nonneg_seed_no_negative_term) simp
  then show ?thesis
    by (simp add: tokenize_cases digits_numeral double_lib_trace_huge del: power_numeral)
qed

section \<open>The verification call\<close>

text \<open>
  C1, as amended. A \<^verbatim>\<open>verify_token\<close> call for a registered name with an issued
  challenge \<open>c\<close> that the guard does not block (the record is not both locked and bound
  to the window of the clock \<open>ta\<close> the guard reads) returns what the comparison of the
  submitted token with \<open>tokenize key1 c (time_seed tb 0)\<close> returns, \<open>tb\<close> being the
  clock read during the call and not the stored \<open>stime\<close>; so it succeeds if and only
  if the derivation returns a value equal (\<^verbatim>\<open>==\<close>) to the token. The call leaves the
  record locked.
\<close>

theorem verify_token_first_attempt:
  assumes "users srv username = Some u" and "key2 u = Some c"
    and "\<not> (locked u \<and> stime u = Some (time_seed ta 0))"
  shows "fst (verify_token M ta tb srv username token) =
           (case tokenize M (Some (key1 u)) (Some c) (time_seed tb 0) of
              Inl e \<Rightarrow> Inl e
            | Inr v \<Rightarrow> Inr (num_eq M v token))
       \<and> (fst (verify_token M ta tb srv username token) = Inr True \<longleftrightarrow>
            (\<exists>v. tokenize M (Some (key1 u)) (Some c) (time_seed tb 0) = Inr v \<and> num_eq M v token))
       \<and> (\<exists>u'. users (snd (verify_token M ta tb srv username token)) username = Some u'
              \<and> locked u')"
  using assms
  by (auto simp: verify_token_Some verify_result verify_record split: sum.splits)

theorem verify_token_first_attempt_witness:
  "users alice_challenged ''alice'' =
     Some \<lparr>name = ''alice'', key1 = 1234, key2 = Some 5678, stime = Some 1510, locked = False\<rparr>
   \<and> fst (verify_token exact_lib jan15_10h jan15_10h alice_challenged ''alice''
            (derive_spec exact_lib 1234 5678 1510)) = Inr True
   \<and> fst (verify_token exact_lib jan15_10h jan15_10h alice_challenged ''alice''
            (derive_spec exact_lib 1234 5678 1510 + 1)) = Inr False"
proof -
  let ?u = "\<lparr>name = ''alice'', key1 = 1234, key2 = Some 5678, stime = Some 1510, locked = False\<rparr>"
  have k: "key2 ?u = Some 5678" by simp
  have g: "\<not> (locked ?u \<and> stime ?u = Some (time_seed jan15_10h 0))" by simp
  note T = verify_token_first_attempt [OF alice_challenged_users k g,
      where M = exact_lib and tb = jan15_10h]
  have eq: "num_eq exact_lib = (=)" by (simp add: exact_lib_def)
  from T [of "derive_spec exact_lib 1234 5678 1510"]
  have a: "fst (verify_token exact_lib jan15_10h jan15_10h alice_challenged ''alice''
            (derive_spec exact_lib 1234 5678 1510)) = Inr True"
    by (simp add: jan15_10h_seed tokenize_alice eq)
  from T [of "derive_spec exact_lib 1234 5678 1510 + 1"]
  have b: "fst (verify_token exact_lib jan15_10h jan15_10h alice_challenged ''alice''
            (derive_spec exact_lib 1234 5678 1510 + 1)) = Inr False"
    by (simp add: jan15_10h_seed tokenize_alice eq)
  from a b alice_challenged_users show ?thesis by simp
qed

text \<open>
  The claim without the guard fails: after alice's first attempt, in the same hour, the
  value \<^verbatim>\<open>tokenize\<close> returns for her keys and the current seed is rejected.
\<close>

theorem verify_token_locked_counterexample:
  "users alice_attempted ''alice'' =
     Some \<lparr>name = ''alice'', key1 = 1234, key2 = Some 5678, stime = Some 1510, locked = True\<rparr>
   \<and> tokenize exact_lib (Some 1234) (Some 5678) (time_seed jan15_10h 0)
       = Inr (derive_spec exact_lib 1234 5678 1510)
   \<and> num_eq exact_lib (derive_spec exact_lib 1234 5678 1510) (derive_spec exact_lib 1234 5678 1510)
   \<and> fst (verify_token exact_lib jan15_10h jan15_10h alice_attempted ''alice''
            (derive_spec exact_lib 1234 5678 1510)) = Inr False"
  by (simp add: alice_attempted_users tokenize_alice jan15_10h_seed
      verify_token_Some [OF alice_attempted_users] verify_result) (simp add: exact_lib_def)

text \<open>
  C2. Take a record whose challenge is bound to the window \<open>w\<close>. After one
  \<^verbatim>\<open>verify_token\<close> call for it (at any clock \<open>ta\<close>, \<open>tb\<close>, with any token, whatever it
  returned or raised), and after any further requests served in the window \<open>w\<close>
  (registrations, new challenges, verifications, for any name), a \<^verbatim>\<open>verify_token\<close>
  call whose guard reads a clock in the window \<open>w\<close> returns \<open>False\<close> for every token
  and leaves the server as it was. The result is the same for every library \<open>M'\<close>:
  the proof is not computed.
\<close>

theorem second_verify_rejected:
  assumes "users srv username = Some u" and "stime u = Some w"
    and "list_all (in_window w) reqs"
    and "time_seed tc 0 = w"
  shows "verify_token M' tc td
           (serve M (snd (verify_token M ta tb srv username token)) reqs) username token' =
           (Inr False, serve M (snd (verify_token M ta tb srv username token)) reqs)"
proof -
  let ?u1 = "snd (verify M ta tb u token)"
  let ?srv1 = "snd (verify_token M ta tb srv username token)"
  have "users ?srv1 username = Some ?u1"
    using assms(1) by (simp add: verify_token_Some)
  moreover have "locked ?u1" "stime ?u1 = Some w"
    using assms(2) by (simp_all add: verify_record)
  ultimately obtain u' where
    u': "users (serve M ?srv1 reqs) username = Some u'" "locked u'" "stime u' = Some w"
    using serve_locked_window [OF _ _ _ assms(3)] by blast
  have "verify M' tc td u' token' = (Inr False, u')"
    using u'(2,3) assms(4) by (simp add: verify_def)
  then show ?thesis
    using u'(1) by (simp add: verify_token_Some fun_upd_idem)
qed

theorem second_verify_rejected_witness:
  "users alice_challenged ''alice'' =
     Some \<lparr>name = ''alice'', key1 = 1234, key2 = Some 5678, stime = Some 1510, locked = False\<rparr>
   \<and> list_all (in_window 1510)
        [Challenge ''alice'' 4321 jan15_10h jan15_10h, Register ''bob'' 2222,
         Verify ''bob'' (0::real) jan15_10h jan15_10h]
   \<and> time_seed jan15_10h 0 = 1510
   \<and> fst (verify_token exact_lib jan15_10h jan15_10h
        (serve exact_lib
           (snd (verify_token exact_lib jan15_10h jan15_10h alice_challenged ''alice'' 0))
           [Challenge ''alice'' 4321 jan15_10h jan15_10h, Register ''bob'' 2222,
            Verify ''bob'' 0 jan15_10h jan15_10h])
        ''alice'' (derive_spec exact_lib 1234 4321 1510)) = Inr False"
proof -
  let ?u = "\<lparr>name = ''alice'', key1 = 1234, key2 = Some 5678, stime = Some 1510, locked = False\<rparr>"
  let ?reqs = "[Challenge ''alice'' 4321 jan15_10h jan15_10h, Register ''bob'' 2222,
         Verify ''bob'' (0::real) jan15_10h jan15_10h]"
  have s: "stime ?u = Some 1510" by simp
  have w: "list_all (in_window 1510) ?reqs" by (simp add: jan15_10h_seed)
  from second_verify_rejected [OF alice_challenged_users s w jan15_10h_seed,
      where M = exact_lib and M' = exact_lib and ta = jan15_10h and tb = jan15_10h
        and token = 0 and td = jan15_10h and token' = "derive_spec exact_lib 1234 4321 1510"]
    w alice_challenged_users jan15_10h_seed
  show ?thesis by simp
qed

section \<open>The token derivation\<close>

text \<open>
  C3, as amended. For non-negative keys with digit sequences of equal length,
  \<^verbatim>\<open>tokenize\<close> returns \<open>derive_quotient\<close>: the rounded sum of the specification, over the
  digit positions, of \<open>sin(v)\<close> at even and \<open>tan(v)\<close> at odd positions, with the
  logarithm \<^verbatim>\<open>math.log(t, 10)\<close> that the code calls in place of \<open>log10(t)\<close>. It does so
  for every seed that makes no product \<open>a * seed^b\<close> negative, in particular for every
  seed \<open>\<ge> 0\<close>; when some product is negative it raises \<^verbatim>\<open>ValueError\<close> (math domain
  error) instead. For a library whose two logarithms agree on the positive integers
  the result is \<open>derive_spec\<close>, the sum with \<open>log10(t)\<close>.
\<close>

theorem tokenize_refines_derive:
  assumes "0 \<le> k1" and "0 \<le> k2"
    and "length (digits (nat k1)) = length (digits (nat k2))"
  shows "(0 \<le> seed \<longrightarrow>
            tokenize M (Some k1) (Some k2) seed = Inr (derive_quotient M (nat k1) (nat k2) seed))
       \<and> (\<not> negative_term (nat k1) (nat k2) seed \<longrightarrow>
            tokenize M (Some k1) (Some k2) seed = Inr (derive_quotient M (nat k1) (nat k2) seed))
       \<and> (negative_term (nat k1) (nat k2) seed \<longrightarrow>
            tokenize M (Some k1) (Some k2) seed = Inl ValueError_math_domain)
       \<and> (\<not> negative_term (nat k1) (nat k2) seed
            \<and> (\<forall>t. 0 < t \<longrightarrow> math_log M t 10 = Some (math_log10 M (num_of_int M t))) \<longrightarrow>
            tokenize M (Some k1) (Some k2) seed = Inr (derive_spec M (nat k1) (nat k2) seed))"
proof -
  have a: "tokenize M (Some k1) (Some k2) seed = Inr (derive_quotient M (nat k1) (nat k2) seed)"
    if "\<not> negative_term (nat k1) (nat k2) seed"
    using assms that by (simp add: tokenize_cases)
  have b: "tokenize M (Some k1) (Some k2) seed = Inl ValueError_math_domain"
    if "negative_term (nat k1) (nat k2) seed"
    using assms that by (simp add: tokenize_cases)
  have c: "tokenize M (Some k1) (Some k2) seed = Inr (derive_spec M (nat k1) (nat k2) seed)"
    if "\<not> negative_term (nat k1) (nat k2) seed"
      and "\<forall>t. 0 < t \<longrightarrow> math_log M t 10 = Some (math_log10 M (num_of_int M t))"
    using a [OF that(1)] derive_agree [OF assms(3) that(1), of M] that(2) by simp
  from a b c nonneg_seed_no_negative_term [of seed "nat k1" "nat k2"] show ?thesis
    by blast
qed

theorem tokenize_refines_derive_witness:
  "(0::int) \<le> 12 \<and> (0::int) \<le> 34 \<and> length (digits (nat 12)) = length (digits (nat 34))
   \<and> (0::int) \<le> 1510
   \<and> tokenize exact_lib (Some 12) (Some 34) 1510
       = Inr (derive_quotient exact_lib (nat 12) (nat 34) 1510)
   \<and> log_quotient exact_lib = log10_spec exact_lib
   \<and> tokenize exact_lib (Some 12) (Some 34) 1510 = Inr (derive_spec exact_lib (nat 12) (nat 34) 1510)
   \<and> length (digits (nat 12)) = length (digits (nat 31))
   \<and> negative_term (nat 12) (nat 31) (- 5)
   \<and> tokenize exact_lib (Some 12) (Some 31) (- 5) = Inl ValueError_math_domain"
proof -
  have len: "length (digits (nat 12)) = length (digits (nat 34))"
    and len': "length (digits (nat 12)) = length (digits (nat 31))"
    by (simp_all add: digits_numeral digits_one)
  have neg: "negative_term (nat 12) (nat 31) (- 5)"
    by (simp add: negative_term_def digits_numeral digits_one)
  have pos: "\<not> negative_term (nat 12) (nat 34) 1510"
    by (rule nonneg_seed_no_negative_term) simp
  have agree: "\<forall>t. 0 < t \<longrightarrow>
      math_log exact_lib t 10 = Some (math_log10 exact_lib (num_of_int exact_lib t))"
    by (simp add: exact_lib_def)
  have z: "(0::int) \<le> 12" "(0::int) \<le> 34" "(0::int) \<le> 31" "(0::int) \<le> 1510"
    by simp_all
  note T = tokenize_refines_derive [OF z(1,2) len, of 1510 exact_lib]
  from T z(4) have a: "tokenize exact_lib (Some 12) (Some 34) 1510
             = Inr (derive_quotient exact_lib (nat 12) (nat 34) 1510)"
    by blast
  from T pos agree
  have c: "tokenize exact_lib (Some 12) (Some 34) 1510
             = Inr (derive_spec exact_lib (nat 12) (nat 34) 1510)"
    by blast
  from tokenize_refines_derive [OF z(1,3) len', of "- 5" exact_lib] neg
  have b: "tokenize exact_lib (Some 12) (Some 31) (- 5) = Inl ValueError_math_domain"
    by blast
  from z len len' neg a b c exact_lib_logarithms show ?thesis by blast
qed

text \<open>
  Two inputs where the claim with \<open>log10(t)\<close> and every seed fails. With the keys 12 and
  31 and the seed -5 the first product is \<open>1 * (-5)^3 = -125\<close>, and \<^verbatim>\<open>math.log\<close> raises.
  With the keys 1 and 3 and the seed 10 the product is 1000, and in doubles the code
  returns -0.544 where the formula with \<open>log10\<close> gives 0.8415.
\<close>

theorem tokenize_formula_counterexample:
  "tokenize exact_lib (Some 12) (Some 31) (- 5) = Inl ValueError_math_domain
   \<and> tokenize double_lib (Some 1) (Some 3) 10 = Inr (- (544 / 1000))
   \<and> derive_spec double_lib 1 3 10 = 8415 / 10000"
proof -
  have "tokenize exact_lib (Some 12) (Some 31) (- 5) = Inl ValueError_math_domain"
    by (simp add: tokenize_cases negative_term_def digits_numeral digits_one)
  with tokenize_double_lib_1000 double_lib_spec_1000 show ?thesis by simp
qed

text \<open>
  C5. For valid inputs (non-negative keys with digit sequences of equal length, no
  negative product) \<^verbatim>\<open>tokenize\<close> returns \<^verbatim>\<open>round_sig\<close> of the sum \<open>x\<close> of the positions:
  the integer 0 when \<open>x == 0\<close>, and otherwise \<open>x\<close> rounded by \<^verbatim>\<open>round\<close> to
  \<open>KEY_LENGTH - 1 - floor(log10(abs(x)))\<close> decimal places. In exact arithmetic, where
  \<^verbatim>\<open>round\<close> gives the nearest multiple of the power of ten, a nonzero sum rounds to
  an integer of exactly \<open>KEY_LENGTH\<close> decimal digits times a power of ten, and 0
  rounds to 0.
\<close>

theorem tokenize_rounding_law:
  assumes "0 \<le> k1" and "0 \<le> k2"
    and "length (digits (nat k1)) = length (digits (nat k2))"
    and "\<not> negative_term (nat k1) (nat k2) seed"
    and "x = derive_sum M (log_quotient M) (nat k1) (nat k2) seed"
  shows "tokenize M (Some k1) (Some k2) seed = Inr (round_sig M x KEY_LENGTH)
       \<and> (num_eq M x (num_of_int M 0) \<longrightarrow>
            tokenize M (Some k1) (Some k2) seed = Inr (num_of_int M 0))
       \<and> (\<not> num_eq M x (num_of_int M 0) \<longrightarrow>
            tokenize M (Some k1) (Some k2) seed
              = Inr (py_round M x (KEY_LENGTH - 1 - math_floor M (math_log10 M (num_abs M x)))))
       \<and> (\<forall>y::real. y \<noteq> 0 \<longrightarrow>
            (\<exists>m e. 10 ^ nat (KEY_LENGTH - 1) \<le> \<bar>m\<bar> \<and> \<bar>m\<bar> < 10 ^ nat KEY_LENGTH
                \<and> round_sig exact_lib y KEY_LENGTH = of_int m * 10 powr of_int e))
       \<and> round_sig exact_lib 0 KEY_LENGTH = 0"
proof -
  have t: "tokenize M (Some k1) (Some k2) seed = Inr (round_sig M x KEY_LENGTH)"
    using assms by (simp add: tokenize_cases derive_quotient_def derive_with_def)
  have d: "\<exists>m e. 10 ^ nat (KEY_LENGTH - 1) \<le> \<bar>m\<bar> \<and> \<bar>m\<bar> < 10 ^ nat KEY_LENGTH
                \<and> round_sig exact_lib y KEY_LENGTH = of_int m * 10 powr of_int e"
    if "y \<noteq> 0" for y :: real
  proof -
    have "10 ^ nat (KEY_LENGTH - 1) = (1000::int)" "10 ^ nat KEY_LENGTH = (10000::int)"
      by (simp_all add: KEY_LENGTH_def)
    with round_sig_exact_digits [OF that] show ?thesis by simp
  qed
  have z: "round_sig exact_lib 0 KEY_LENGTH = 0"
    by (simp add: round_sig_def exact_lib_def)
  from t d z show ?thesis
    by (simp add: round_sig_zero round_sig_nonzero)
qed

theorem tokenize_rounding_law_witness:
  "(0::int) \<le> 0 \<and> (0::int) \<le> 5 \<and> length (digits (nat 0)) = length (digits (nat 5))
   \<and> \<not> negative_term (nat 0) (nat 5) 1510
   \<and> derive_sum exact_lib (log_quotient exact_lib) (nat 0) (nat 5) 1510 = 0
   \<and> tokenize exact_lib (Some 0) (Some 5) 1510 = Inr 0
   \<and> (0::int) \<le> 1 \<and> (0::int) \<le> 3 \<and> length (digits (nat 1)) = length (digits (nat 3))
   \<and> \<not> negative_term (nat 1) (nat 3) 10
   \<and> derive_sum double_lib (log_quotient double_lib) (nat 1) (nat 3) 10
       = - (2450053272283009 / 4503599627370496)
   \<and> \<lfloor>log 10 \<bar>- (2450053272283009 / 4503599627370496 :: real)\<bar>\<rfloor> = - 1
   \<and> tokenize double_lib (Some 1) (Some 3) 10
       = Inr (py_round double_lib (- (2450053272283009 / 4503599627370496)) (KEY_LENGTH - 1 - (- 1)))
   \<and> tokenize double_lib (Some 1) (Some 3) 10 = Inr (of_int (- 5440) * 10 powr of_int (- 4))
   \<and> (\<exists>m e. 10 ^ nat (KEY_LENGTH - 1) \<le> \<bar>m\<bar> \<and> \<bar>m\<bar> < 10 ^ nat KEY_LENGTH
         \<and> round_sig exact_lib (- (2450053272283009 / 4503599627370496)) KEY_LENGTH
             = of_int m * 10 powr of_int e)"
proof -
  have z: "(0::int) \<le> 0" "(0::int) \<le> 5" "(0::int) \<le> 1" "(0::int) \<le> 3" by simp_all
  have l0: "length (digits (nat 0)) = length (digits (nat 5))"
    and l1: "length (digits (nat 1)) = length (digits (nat 3))"
    by (simp_all add: digits_numeral digits_one digits.simps [of 0])
  have n0: "\<not> negative_term (nat 0) (nat 5) 1510"
    and n1: "\<not> negative_term (nat 1) (nat 3) 10"
    by (rule nonneg_seed_no_negative_term, simp)+
  have s0: "derive_sum exact_lib (log_quotient exact_lib) (nat 0) (nat 5) 1510 = 0"
    by (simp add: derive_sum_def position_term_def position_v_def digits.simps [of 0]
        digits_numeral exact_lib_def)
  have s1: "derive_sum double_lib (log_quotient double_lib) (nat 1) (nat 3) 10
       = - (2450053272283009 / 4503599627370496)"
    by (simp add: derive_sum_def position_term_def position_v_def log_quotient_def
        digits_one digits_numeral double_lib_def exact_lib_def)
  have fl: "\<lfloor>log 10 \<bar>- (2450053272283009 / 4503599627370496 :: real)\<bar>\<rfloor> = - 1"
    by (rule floor_log10_eq) (simp_all add: powr_minus)
  note T0 = tokenize_rounding_law [OF z(1,2) l0 n0 s0 [symmetric]]
  note T1 = tokenize_rounding_law [OF z(3,4) l1 n1 s1 [symmetric]]
  from T0 have a: "tokenize exact_lib (Some 0) (Some 5) 1510 = Inr 0"
    by (simp add: exact_lib_def)
  have ne: "\<not> num_eq double_lib (- (2450053272283009 / 4503599627370496)) (num_of_int double_lib 0)"
    by (simp add: double_lib_def exact_lib_def)
  from T1 ne
  have b: "tokenize double_lib (Some 1) (Some 3) 10
       = Inr (py_round double_lib (- (2450053272283009 / 4503599627370496))
           (KEY_LENGTH - 1 - math_floor double_lib (math_log10 double_lib
              (num_abs double_lib (- (2450053272283009 / 4503599627370496))))))"
    by blast
  have "math_floor double_lib (math_log10 double_lib
          (num_abs double_lib (- (2450053272283009 / 4503599627370496))))
        = \<lfloor>log 10 \<bar>- (2450053272283009 / 4503599627370496 :: real)\<bar>\<rfloor>"
    by (simp add: double_lib_def exact_lib_def)
  with b fl
  have b': "tokenize double_lib (Some 1) (Some 3) 10
       = Inr (py_round double_lib (- (2450053272283009 / 4503599627370496)) (KEY_LENGTH - 1 - (- 1)))"
    by simp
  have c: "tokenize double_lib (Some 1) (Some 3) 10 = Inr (of_int (- 5440) * 10 powr of_int (- 4))"
    by (simp add: tokenize_double_lib_1000 powr_minus)
  from T1 have d: "\<exists>m e. 10 ^ nat (KEY_LENGTH - 1) \<le> \<bar>m\<bar> \<and> \<bar>m\<bar> < 10 ^ nat KEY_LENGTH
         \<and> round_sig exact_lib (- (2450053272283009 / 4503599627370496)) KEY_LENGTH
             = of_int m * 10 powr of_int e"
    by simp
  from z l0 l1 n0 n1 s0 s1 fl a b' c d show ?thesis by blast
qed

text \<open>
  C6, as amended. A negative key makes \<^verbatim>\<open>tokenize\<close> raise the \<^verbatim>\<open>ValueError\<close> of
  \<^verbatim>\<open>int('-')\<close>. For non-negative keys and every seed, it raises the \<^verbatim>\<open>ValueError\<close> of
  the length check if and only if the digit sequences differ in length; for sequences
  of equal length it raises \<^verbatim>\<open>ValueError\<close> (math domain error) when some product
  \<open>a * seed^b\<close> is negative, the logarithm being taken of the product itself, and
  otherwise returns the rounded sum, in which a position where the library raises
  \<^verbatim>\<open>OverflowError\<close> counts 0. No seed \<open>\<ge> 0\<close> makes a product negative, and
  \<^verbatim>\<open>OverflowError\<close> never leaves \<^verbatim>\<open>tokenize\<close>.
\<close>

theorem tokenize_length_mismatch:
  "(k1 < 0 \<or> k2 < 0 \<longrightarrow>
      tokenize M (Some k1) (Some k2) seed = Inl (ValueError_invalid_literal ''-''))
   \<and> (0 \<le> k1 \<and> 0 \<le> k2 \<longrightarrow>
        (tokenize M (Some k1) (Some k2) seed = Inl ValueError_keys_length \<longleftrightarrow>
           length (digits (nat k1)) \<noteq> length (digits (nat k2))))
   \<and> (0 \<le> k1 \<and> 0 \<le> k2 \<and> length (digits (nat k1)) = length (digits (nat k2)) \<longrightarrow>
        (if negative_term (nat k1) (nat k2) seed
         then tokenize M (Some k1) (Some k2) seed = Inl ValueError_math_domain
         else tokenize M (Some k1) (Some k2) seed
                = Inr (derive_quotient M (nat k1) (nat k2) seed)))
   \<and> (0 \<le> seed \<longrightarrow> \<not> negative_term (nat k1) (nat k2) seed)
   \<and> tokenize M (Some k1) (Some k2) seed \<noteq> Inl OverflowError"
  using nonneg_seed_no_negative_term [of seed "nat k1" "nat k2"]
  by (auto simp: tokenize_cases)

theorem tokenize_length_mismatch_witness:
  "tokenize exact_lib (Some (- 12)) (Some 34) 5 = Inl (ValueError_invalid_literal ''-'')
   \<and> length (digits (nat 12)) \<noteq> length (digits (nat 123))
   \<and> tokenize exact_lib (Some 12) (Some 123) 5 = Inl ValueError_keys_length
   \<and> length (digits (nat 12)) = length (digits (nat 34))
   \<and> tokenize exact_lib (Some 12) (Some 34) 5 \<noteq> Inl ValueError_keys_length
   \<and> \<not> negative_term (nat 12) (nat 34) 5
   \<and> tokenize exact_lib (Some 12) (Some 34) 5 = Inr (derive_quotient exact_lib (nat 12) (nat 34) 5)
   \<and> length (digits (nat 12)) = length (digits (nat 31))
   \<and> negative_term (nat 12) (nat 31) (- 5)
   \<and> tokenize exact_lib (Some 12) (Some 31) (- 5) = Inl ValueError_math_domain"
proof -
  have z: "(0::int) \<le> 12" "(0::int) \<le> 34" "(0::int) \<le> 123" "(0::int) \<le> 31"
    "(0::int) \<le> 5" "(- 12::int) < 0"
    by simp_all
  have l1: "length (digits (nat 12)) \<noteq> length (digits (nat 123))"
    and l2: "length (digits (nat 12)) = length (digits (nat 34))"
    and l3: "length (digits (nat 12)) = length (digits (nat 31))"
    by (simp_all add: digits_numeral digits_one)
  have neg: "negative_term (nat 12) (nat 31) (- 5)"
    by (simp add: negative_term_def digits_numeral digits_one)
  from tokenize_length_mismatch [of "- 12" 34 exact_lib 5] z
  have a: "tokenize exact_lib (Some (- 12)) (Some 34) 5 = Inl (ValueError_invalid_literal ''-'')"
    by blast
  from tokenize_length_mismatch [of 12 123 exact_lib 5] z l1
  have b: "tokenize exact_lib (Some 12) (Some 123) 5 = Inl ValueError_keys_length"
    by blast
  note T = tokenize_length_mismatch [of 12 34 exact_lib 5]
  from T z l2 have c: "tokenize exact_lib (Some 12) (Some 34) 5 \<noteq> Inl ValueError_keys_length"
    by blast
  from T z have n: "\<not> negative_term (nat 12) (nat 34) 5" by blast
  from T z l2 n
  have d: "tokenize exact_lib (Some 12) (Some 34) 5
             = Inr (derive_quotient exact_lib (nat 12) (nat 34) 5)"
    by presburger
  from tokenize_length_mismatch [of 12 31 exact_lib "- 5"] z l3 neg
  have e: "tokenize exact_lib (Some 12) (Some 31) (- 5) = Inl ValueError_math_domain"
    by presburger
  from a b c d e l1 l2 l3 n neg show ?thesis by blast
qed

text \<open>
  Three inputs where the claim as first stated fails: the keys 1 and 1 with the seed -5
  (equal lengths, no value: \<^verbatim>\<open>math.log(-5, 10)\<close> raises); the keys -12 and 34 (digit
  sequences of length 2 both, no value: \<^verbatim>\<open>int('-')\<close> raises, and the error is not the
  one of the length check); and the keys 9 and 9 with the seed \<open>10^40\<close>, where the
  product \<open>9 * 10^360\<close> is beyond the range of a double and the position still counts
  \<open>sin(v)\<close>, not 0: CPython's \<^verbatim>\<open>math.log\<close> does not overflow on an integer.
\<close>

theorem tokenize_errors_counterexample:
  "tokenize exact_lib (Some 1) (Some 1) (- 5) = Inl ValueError_math_domain
   \<and> tokenize exact_lib (Some (- 12)) (Some 34) 5 = Inl (ValueError_invalid_literal ''-'')
   \<and> tokenize double_lib (Some 9) (Some 9) (10 ^ 40) = Inr (4121 / 10000)"
proof -
  have "tokenize exact_lib (Some 1) (Some 1) (- 5) = Inl ValueError_math_domain"
    "tokenize exact_lib (Some (- 12)) (Some 34) 5 = Inl (ValueError_invalid_literal ''-'')"
    by (simp_all add: tokenize_cases negative_term_def digits_one)
  with tokenize_double_lib_huge show ?thesis by blast
qed

section \<open>The time seed\<close>

text \<open>
  C4, as amended. For two readings of the clock and one offset, the seeds are equal if
  and only if the day of the month and the hour of the day are equal; month and year do
  not count. So two readings in the same hour of the same calendar day give equal seeds,
  and so do readings a month apart.
\<close>

theorem time_seed_equal_iff:
  assumes "valid_datetime a" and "valid_datetime b"
  shows "(time_seed a offset = time_seed b offset \<longleftrightarrow> day a = day b \<and> hour a = hour b)
       \<and> (same_utc_hour a b \<longrightarrow> time_seed a offset = time_seed b offset)"
proof -
  have bounds: "0 \<le> hour a" "hour a \<le> 23" "0 \<le> hour b" "hour b \<le> 23"
    using assms by (simp_all add: valid_datetime_def)
  have "time_seed a offset = time_seed b offset \<Longrightarrow> day a = day b \<and> hour a = hour b"
    using seed_injective [OF bounds, of "day a" "day b"] by (simp add: time_seed_def)
  then show ?thesis
    by (auto simp: time_seed_def same_utc_hour_def)
qed

theorem time_seed_equal_iff_witness:
  "valid_datetime jan15_10h \<and> valid_datetime feb15_10h
   \<and> day jan15_10h = day feb15_10h \<and> hour jan15_10h = hour feb15_10h
   \<and> time_seed jan15_10h 7 = time_seed feb15_10h 7
   \<and> valid_datetime jan15_11h \<and> hour jan15_10h \<noteq> hour jan15_11h
   \<and> time_seed jan15_10h 7 \<noteq> time_seed jan15_11h 7"
proof -
  have a: "valid_datetime jan15_10h" and b: "valid_datetime feb15_10h"
    and c: "valid_datetime jan15_11h"
    by (simp_all add: valid_datetime_def jan15_10h_def feb15_10h_def jan15_11h_def)
  have d: "day jan15_10h = day feb15_10h" "hour jan15_10h = hour feb15_10h"
    "hour jan15_10h \<noteq> hour jan15_11h"
    by (simp_all add: jan15_10h_def feb15_10h_def jan15_11h_def)
  from time_seed_equal_iff [OF a b, of 7] d
  have e: "time_seed jan15_10h 7 = time_seed feb15_10h 7" by blast
  from time_seed_equal_iff [OF a c, of 7] d
  have f: "time_seed jan15_10h 7 \<noteq> time_seed jan15_11h 7" by blast
  from a b c d e f show ?thesis by blast
qed

text \<open>
  January 15 and February 15, both between 10h and 11h, give the seed 1510.
\<close>

theorem time_seed_month_counterexample:
  "valid_datetime jan15_10h \<and> valid_datetime feb15_10h
   \<and> time_seed jan15_10h 0 = 1510 \<and> time_seed feb15_10h 0 = 1510
   \<and> \<not> same_utc_hour jan15_10h feb15_10h"
  by (simp add: valid_datetime_def time_seed_def same_utc_hour_def jan15_10h_def feb15_10h_def)

section \<open>The lock\<close>

text \<open>
  C7. For a name with a record \<open>u\<close>: \<^verbatim>\<open>issue_challenge\<close> changes \<open>key2\<close> and \<open>stime\<close>
  and nothing else; \<^verbatim>\<open>register_user\<close> returns the stored secret and leaves the server
  unchanged; \<^verbatim>\<open>verify_token\<close> leaves the record as it is or sets \<open>locked\<close>; and once
  \<open>locked\<close> holds it holds, with the same secret, after every sequence of requests;
  so it holds after a verification attempt and every sequence of requests that follows.
\<close>

theorem locked_never_cleared:
  assumes "users srv username = Some u"
  shows "users (snd (issue_challenge r now srv username)) username =
           Some (u\<lparr>key2 := Some r, stime := Some (time_seed now 0)\<rparr>)
       \<and> register_user r srv username = (key1 u, srv)
       \<and> (users (snd (verify_token M ta tb srv username token)) username = Some u
          \<or> users (snd (verify_token M ta tb srv username token)) username
              = Some (u\<lparr>locked := True\<rparr>))
       \<and> (locked u \<longrightarrow>
            (\<exists>u'. users (serve M srv reqs) username = Some u' \<and> locked u' \<and> key1 u' = key1 u))
       \<and> (\<exists>u'. users (serve M (snd (verify_token M ta tb srv username token)) reqs) username
                  = Some u' \<and> locked u' \<and> key1 u' = key1 u)"
proof -
  let ?u1 = "snd (verify M ta tb u token)"
  have u1: "users (snd (verify_token M ta tb srv username token)) username = Some ?u1"
    using assms by (simp add: verify_token_Some)
  have l1: "locked ?u1" and k1: "key1 ?u1 = key1 u"
    by (simp_all add: verify_record)
  from serve_locked [OF u1 l1, of M reqs] k1
  have after: "\<exists>u'. users (serve M (snd (verify_token M ta tb srv username token)) reqs) username
                  = Some u' \<and> locked u' \<and> key1 u' = key1 u"
    by simp
  from assms serve_locked [OF assms, of M reqs] after show ?thesis
    by (simp add: issue_challenge_Some register_user_Some verify_token_Some verify_record)
qed

theorem locked_never_cleared_witness:
  "users alice_attempted ''alice'' =
     Some \<lparr>name = ''alice'', key1 = 1234, key2 = Some 5678, stime = Some 1510, locked = True\<rparr>
   \<and> users (snd (issue_challenge 4321 jan15_11h alice_attempted ''alice'')) ''alice'' =
       Some \<lparr>name = ''alice'', key1 = 1234, key2 = Some 4321, stime = Some 1511, locked = True\<rparr>
   \<and> register_user 9999 alice_attempted ''alice'' = (1234, alice_attempted)
   \<and> (\<exists>u'. users (serve exact_lib alice_attempted
                  [Challenge ''alice'' 4321 jan15_11h jan15_11h, Register ''alice'' 9999,
                   Verify ''alice'' 0 jan15_11h jan15_11h]) ''alice'' = Some u'
           \<and> locked u' \<and> key1 u' = 1234)"
proof -
  note T = locked_never_cleared [OF alice_attempted_users, where M = exact_lib]
  have a: "users (snd (issue_challenge 4321 jan15_11h alice_attempted ''alice'')) ''alice'' =
       Some \<lparr>name = ''alice'', key1 = 1234, key2 = Some 4321, stime = Some 1511, locked = True\<rparr>"
    using T [of 4321 jan15_11h] by (simp add: time_seed_def jan15_11h_def)
  have b: "register_user 9999 alice_attempted ''alice'' = (1234, alice_attempted)"
    using T [of 9999] by simp
  have c: "\<exists>u'. users (serve exact_lib alice_attempted
                  [Challenge ''alice'' 4321 jan15_11h jan15_11h, Register ''alice'' 9999,
                   Verify ''alice'' 0 jan15_11h jan15_11h]) ''alice'' = Some u'
           \<and> locked u' \<and> key1 u' = 1234"
    using T [where reqs = "[Challenge ''alice'' 4321 jan15_11h jan15_11h, Register ''alice'' 9999,
                   Verify ''alice'' 0 jan15_11h jan15_11h]"] by simp
  from a b c alice_attempted_users show ?thesis by blast
qed

section \<open>Registration\<close>

text \<open>
  C8. \<^verbatim>\<open>register_user\<close> is idempotent: whatever the generator would draw (\<open>r1\<close>,
  \<open>r2\<close>), a second registration of a name returns the secret the first one returned
  and leaves the server, hence every field of the record, as the first one left it; a
  name that already has a record gets its stored secret back and the server is
  unchanged.
\<close>

theorem register_user_idempotent:
  "register_user r2 (snd (register_user r1 srv username)) username
     = (fst (register_user r1 srv username), snd (register_user r1 srv username))
   \<and> (case users srv username of
        Some u \<Rightarrow> register_user r1 srv username = (key1 u, srv)
      | None \<Rightarrow> users (snd (register_user r1 srv username)) username = Some (ZKUser username r1))"
  by (simp add: register_user_def ZKUser_def split: option.split)

section \<open>Unknown and unchallenged identities\<close>

text \<open>
  C9. For a name with no record, \<^verbatim>\<open>issue_challenge\<close> returns \<^verbatim>\<open>None\<close>, which the route
  turns into the error 404 "User not found"; \<^verbatim>\<open>verify_token\<close> returns \<open>False\<close> for
  every token, and the route answers with the error 401 "Authentication failed", the
  answer it gives to every call that returns \<open>False\<close>, a wrong proof included. Neither
  call changes the server.
\<close>

theorem unknown_identity:
  assumes "users srv username = None"
  shows "issue_challenge r now srv username = (None, srv)
       \<and> route_challenge r now now' srv username = (HTTPException 404 ''User not found'', srv)
       \<and> verify_token M ta tb srv username token = (Inr False, srv)
       \<and> route_verify M ta tb srv username token
            = (HTTPException 401 ''Authentication failed'', srv)
       \<and> (\<forall>srv' username' token' t1 t2.
            fst (verify_token M t1 t2 srv' username' token') = Inr False \<longrightarrow>
            fst (route_verify M t1 t2 srv' username' token')
              = fst (route_verify M ta tb srv username token))"
  using assms
  by (auto simp: issue_challenge_None route_challenge_def verify_token_None route_verify_def
      split: prod.splits sum.splits)

theorem unknown_identity_witness:
  "users ZKServer ''mallory'' = None
   \<and> issue_challenge 4321 jan15_10h ZKServer ''mallory'' = (None, ZKServer)
   \<and> route_challenge 4321 jan15_10h jan15_10h ZKServer ''mallory''
       = (HTTPException 404 ''User not found'', ZKServer)
   \<and> verify_token exact_lib jan15_10h jan15_10h ZKServer ''mallory'' 0 = (Inr False, ZKServer)
   \<and> route_verify exact_lib jan15_10h jan15_10h ZKServer ''mallory'' 0
       = (HTTPException 401 ''Authentication failed'', ZKServer)
   \<and> fst (verify_token exact_lib jan15_10h jan15_10h alice_challenged ''alice''
          (derive_spec exact_lib 1234 5678 1510 + 1)) = Inr False
   \<and> fst (route_verify exact_lib jan15_10h jan15_10h alice_challenged ''alice''
          (derive_spec exact_lib 1234 5678 1510 + 1))
       = fst (route_verify exact_lib jan15_10h jan15_10h ZKServer ''mallory'' 0)"
proof -
  have n: "users ZKServer ''mallory'' = None" by (simp add: ZKServer_def)
  note T = unknown_identity [OF n, where M = exact_lib and token = 0 and r = 4321
      and now = jan15_10h and now' = jan15_10h and ta = jan15_10h and tb = jan15_10h]
  from T alice_wrong_proof
  have "fst (route_verify exact_lib jan15_10h jan15_10h alice_challenged ''alice''
          (derive_spec exact_lib 1234 5678 1510 + 1))
       = fst (route_verify exact_lib jan15_10h jan15_10h ZKServer ''mallory'' 0)"
    by blast
  with T n alice_wrong_proof show ?thesis by blast
qed

text \<open>
  C10. In every state the server reaches, for a registered name that was never issued a
  challenge (\<open>key2\<close> is \<^verbatim>\<open>None\<close>), \<^verbatim>\<open>verify_token\<close> returns no boolean: it raises the \<^verbatim>\<open>ValueError\<close> of
  \<^verbatim>\<open>int('N')\<close> (of \<^verbatim>\<open>int('-')\<close> for a negative secret), which is not the error of the
  length check, the route does not catch it, and the record is left locked.
\<close>

theorem verify_without_challenge_raises:
  assumes "srv = serve M ZKServer reqs"
    and "users srv username = Some u" and "key2 u = None"
  shows "fst (verify_token M ta tb srv username token)
           = Inl (ValueError_invalid_literal (if key1 u < 0 then ''-'' else ''N''))
       \<and> fst (route_verify M ta tb srv username token)
           = Uncaught (ValueError_invalid_literal (if key1 u < 0 then ''-'' else ''N''))
       \<and> users (snd (verify_token M ta tb srv username token)) username
           = Some (u\<lparr>locked := True\<rparr>)"
proof -
  have "stime u = None"
    using reachable_unchallenged [of M reqs username u] assms by simp
  with assms(2,3) show ?thesis
    by (simp add: verify_token_Some verify_result verify_record tokenize_None route_verify_def
        split: prod.splits)
qed

theorem verify_without_challenge_raises_witness:
  "alice_registered = serve exact_lib ZKServer [Register ''alice'' 1234]
   \<and> users alice_registered ''alice'' = Some (ZKUser ''alice'' 1234)
   \<and> key2 (ZKUser ''alice'' 1234) = None
   \<and> fst (verify_token exact_lib jan15_10h jan15_10h alice_registered ''alice'' 0)
       = Inl (ValueError_invalid_literal ''N'')
   \<and> fst (route_verify exact_lib jan15_10h jan15_10h alice_registered ''alice'' 0)
       = Uncaught (ValueError_invalid_literal ''N'')
   \<and> users (snd (verify_token exact_lib jan15_10h jan15_10h alice_registered ''alice'' 0)) ''alice''
       = Some \<lparr>name = ''alice'', key1 = 1234, key2 = None, stime = None, locked = True\<rparr>"
proof -
  have k: "key2 (ZKUser ''alice'' 1234) = None"
    by (simp add: ZKUser_def)
  from verify_without_challenge_raises [OF alice_registered_def alice_registered_users k,
      where ta = jan15_10h and tb = jan15_10h and token = 0]
    alice_registered_users k alice_registered_def
  show ?thesis by (simp add: ZKUser_def)
qed

end
